theory Spec2Isabelle
  imports Complex_Main "HOL-Library.Log_Nat"
begin

section \<open>Tax burden of freelancers in Bulgaria: the tax model\<close>

text \<open>
  The script \<^verbatim>\<open>bulgaria-freelance-taxes.py\<close> computes the net income of a freelancer who
  works through a company (and takes the income out as dividends) or as an individual, and charts
  the fraction of the gross income that goes to taxes and fixed expenses.

  Number model. The command-line amounts are Python integers (\<^typ>\<open>int\<close>). Every other
  quantity is a Python or NumPy float. The program is modelled twice. The first model
  takes a finite float as a \<^typ>\<open>real\<close> and \<open>+\<close>, \<open>-\<close>, \<open>*\<close>, \<open>/\<close> as the exact
  operations, in the order in which the source applies them: it gives the exact value
  of the formulas that the code evaluates. The second model, in the section on binary64
  arithmetic, rounds the result of every operation as binary64 does: it gives the
  numbers that the code computes. The division by a gross income of zero, which leaves
  the finite numbers whatever the precision, is modelled explicitly in both
  (\<open>float64\<close> below).
\<close>

subsection \<open>Module constants\<close>

definition SOCIAL_SECURITY_FACTOR_MAIN :: real where
  "SOCIAL_SECURITY_FACTOR_MAIN = 0.148 + 0.05"

definition SOCIAL_SECURITY_FACTOR_HEALTH :: real where
  "SOCIAL_SECURITY_FACTOR_HEALTH = 0.08"

definition INCOME_TAX_FACTOR :: real where
  "INCOME_TAX_FACTOR = 0.10"

definition DIVIDEND_TAX_FACTOR :: real where
  "DIVIDEND_TAX_FACTOR = 0.05"

definition RECOGNIZED_EXPENSES_INDIVIDUAL :: real where
  "RECOGNIZED_EXPENSES_INDIVIDUAL = 0.25"

definition FIXED_EXPENSES_INDIVIDUAL :: int where
  "FIXED_EXPENSES_INDIVIDUAL = 150 + 5"

definition FIXED_EXPENSES_COMPANY :: int where
  "FIXED_EXPENSES_COMPANY = 150 + 15"

subsection \<open>Command-line arguments\<close>

text \<open>
  The namespace returned by \<^verbatim>\<open>parser.parse_args()\<close>. The source reads it as the global
  \<^verbatim>\<open>args\<close>; the model passes it to every function that reads it. The field
  \<open>output_arg\<close> is \<^verbatim>\<open>args.output\<close>.
\<close>

record args =
  socsec_base_min :: int
  socsec_base_max :: int
  year :: string
  citizen :: bool
  gross_min :: int
  gross_max :: int
  output_arg :: string

subsection \<open>The tax model\<close>

definition soc_sec_factor :: "args \<Rightarrow> real" where
  "soc_sec_factor a =
     (if citizen a then SOCIAL_SECURITY_FACTOR_MAIN + SOCIAL_SECURITY_FACTOR_HEALTH
      else SOCIAL_SECURITY_FACTOR_MAIN)"

definition get_net_company :: "args \<Rightarrow> real \<Rightarrow> real" where
  "get_net_company a gross =
     (let soc_sec = real_of_int (socsec_base_min a) * soc_sec_factor a;
          income_tax_base = gross - real_of_int FIXED_EXPENSES_COMPANY - soc_sec;
          income_tax = income_tax_base * INCOME_TAX_FACTOR;
          net_company = gross - soc_sec - income_tax - real_of_int FIXED_EXPENSES_COMPANY
      in net_company * (1.0 - DIVIDEND_TAX_FACTOR))"

definition get_net_individual :: "args \<Rightarrow> real \<Rightarrow> real" where
  "get_net_individual a gross =
     (let soc_sec_base = gross;
          soc_sec_base = (if soc_sec_base > real_of_int (socsec_base_max a)
                          then real_of_int (socsec_base_max a) else soc_sec_base);
          soc_sec = soc_sec_base * soc_sec_factor a;
          income_tax_base = gross * (1.0 - RECOGNIZED_EXPENSES_INDIVIDUAL) - soc_sec;
          income_tax = income_tax_base * INCOME_TAX_FACTOR
      in gross - soc_sec - income_tax - real_of_int FIXED_EXPENSES_INDIVIDUAL)"

text \<open>
  The locals of \<open>get_net_company\<close>, assigned by the same statements in the same order, so
  that properties of the intermediate amounts can be stated.
\<close>

record company_locals =
  co_soc_sec :: real
  co_income_tax_base :: real
  co_income_tax :: real
  co_net_company :: real

definition get_net_company_locals :: "args \<Rightarrow> real \<Rightarrow> company_locals" where
  "get_net_company_locals a gross =
     (let soc_sec = real_of_int (socsec_base_min a) * soc_sec_factor a;
          income_tax_base = gross - real_of_int FIXED_EXPENSES_COMPANY - soc_sec;
          income_tax = income_tax_base * INCOME_TAX_FACTOR;
          net_company = gross - soc_sec - income_tax - real_of_int FIXED_EXPENSES_COMPANY
      in \<lparr>co_soc_sec = soc_sec, co_income_tax_base = income_tax_base,
          co_income_tax = income_tax, co_net_company = net_company\<rparr>)"

text \<open>The locals of \<open>get_net_individual\<close>; \<open>in_soc_sec_base\<close> is the base after the cap.\<close>

record individual_locals =
  in_soc_sec_base :: real
  in_soc_sec :: real
  in_income_tax_base :: real
  in_income_tax :: real

definition get_net_individual_locals :: "args \<Rightarrow> real \<Rightarrow> individual_locals" where
  "get_net_individual_locals a gross =
     (let soc_sec_base = gross;
          soc_sec_base = (if soc_sec_base > real_of_int (socsec_base_max a)
                          then real_of_int (socsec_base_max a) else soc_sec_base);
          soc_sec = soc_sec_base * soc_sec_factor a;
          income_tax_base = gross * (1.0 - RECOGNIZED_EXPENSES_INDIVIDUAL) - soc_sec;
          income_tax = income_tax_base * INCOME_TAX_FACTOR
      in \<lparr>in_soc_sec_base = soc_sec_base, in_soc_sec = soc_sec,
          in_income_tax_base = income_tax_base, in_income_tax = income_tax\<rparr>)"

subsection \<open>The series of the chart\<close>

text \<open>
  \<^verbatim>\<open>np.linspace(start, stop, num)\<close> of NumPy, with its default \<^verbatim>\<open>endpoint=True\<close>: the
  indices \<open>0, \<dots>, num - 1\<close> are scaled by the step \<open>(stop - start) / (num - 1)\<close> and shifted
  by \<open>start\<close>, and the last element is then overwritten with \<open>stop\<close>.
\<close>

definition np_linspace :: "real \<Rightarrow> real \<Rightarrow> nat \<Rightarrow> real list" where
  "np_linspace start stop num =
     (let dv = num - 1;
          delta = stop - start;
          y = map real [0..<num];
          y = (if dv > 0 then
                 (let step = delta / real dv
                  in if step = 0 then map (\<lambda>v. v / real dv * delta) y
                     else map (\<lambda>v. v * step) y)
               else map (\<lambda>v. v * delta) y);
          y = map (\<lambda>v. v + start) y
      in if num > 1 then y[num - 1 := stop] else y)"

text \<open>
  The samples are NumPy \<^verbatim>\<open>float64\<close> scalars, so the division by a gross income of zero
  does not raise: it gives an infinity or a NaN (with a warning), which the subtraction
  from 1 propagates. A sample that is zero is a positive zero.
\<close>

datatype float64 = Finite real | PosInf | NegInf | NaN

definition np_divide :: "real \<Rightarrow> real \<Rightarrow> float64" where
  "np_divide x y =
     (if y \<noteq> 0 then Finite (x / y)
      else if x > 0 then PosInf
      else if x < 0 then NegInf
      else NaN)"

fun np_subtract :: "real \<Rightarrow> float64 \<Rightarrow> float64" where
  "np_subtract x (Finite y) = Finite (x - y)"
| "np_subtract x PosInf = NegInf"
| "np_subtract x NegInf = PosInf"
| "np_subtract x NaN = NaN"

text \<open>
  \<open>plot_func\<close> computes the samples and the two series and hands them to the plotting
  library; the model returns what it hands over: \<open>plot_x\<close> is the \<open>x\<close> and \<open>y_company\<close>,
  \<open>y_individual\<close> the \<open>y\<close> of the two calls of \<^verbatim>\<open>plt.plot\<close>.
\<close>

record plot_data =
  plot_x :: "real list"
  y_company :: "float64 list"
  y_individual :: "float64 list"

definition plot_func :: "args \<Rightarrow> int \<times> int \<Rightarrow> plot_data" where
  "plot_func a x =
     (let x = np_linspace (real_of_int (fst x)) (real_of_int (snd x)) 200;
          y_company = map (\<lambda>gross. np_subtract 1 (np_divide (get_net_company a gross) gross)) x;
          y_individual = map (\<lambda>gross. np_subtract 1 (np_divide (get_net_individual a gross) gross)) x
      in \<lparr>plot_x = x, y_company = y_company, y_individual = y_individual\<rparr>)"

text \<open>The call at module level: \<^verbatim>\<open>plot_func(x=(args.gross_min, args.gross_max))\<close>.\<close>

definition main_plot :: "args \<Rightarrow> plot_data" where
  "main_plot a = plot_func a (gross_min a, gross_max a)"

subsection \<open>A concrete run\<close>

text \<open>
  The arguments \<^verbatim>\<open>--socsec-base-min 650 --socsec-base-max 3000 --year 2021\<close>, every
  optional argument at its default.
\<close>

definition args_2021 :: args where
  "args_2021 = \<lparr>socsec_base_min = 650, socsec_base_max = 3000, year = ''2021'',
     citizen = False, gross_min = 500, gross_max = 25000, output_arg = ''output.png''\<rparr>"

section \<open>The same program in binary64 arithmetic\<close>

text \<open>
  The definitions above give the exact value of every formula. The definitions of this
  section are the same statements with every float operation rounded as IEEE 754
  binary64 rounds it (to nearest, ties to even): they give the numbers that the script
  really computes. A binary64 number is modelled as the real number it denotes.
\<close>

subsection \<open>Rounding to binary64\<close>

text \<open>
  \<open>round_half_even\<close> rounds to the nearest integer, a tie to the even one.
  \<open>round_binary64 x\<close> is the binary64 number nearest to \<open>x\<close>: with \<open>u\<close> the magnitude of \<open>x\<close>
  in units of \<open>2 ^ - 1074\<close> (the smallest positive binary64 number), the spacing of the
  binary64 numbers around \<open>u\<close> is \<open>2 ^ s\<close> units, where \<open>s\<close> is the number of bits of the integer
  part of \<open>u\<close> in excess of the 53 bits of a significand (and 0 in the subnormal range).
  A result of magnitude \<open>2 ^ 1024\<close> or more, which binary64 replaces by an infinity (and
  for which the conversion of a Python integer raises \<^verbatim>\<open>OverflowError\<close>), is outside the
  model: the model rounds it as if the exponent range went on.
\<close>

definition round_half_even :: "real \<Rightarrow> int" where
  "round_half_even u =
     (let f = \<lfloor>u\<rfloor>; r = u - of_int f
      in if r < 1 / 2 then f else if r > 1 / 2 then f + 1 else if even f then f else f + 1)"

definition round_binary64 :: "real \<Rightarrow> real" where
  "round_binary64 x =
     (let u = \<bar>x\<bar> * 2 ^ 1074;
          s = nat (bitlen \<lfloor>u\<rfloor> - 53);
          m = round_half_even (u / 2 ^ s)
      in sgn x * (of_int m * 2 ^ s / 2 ^ 1074))"

text \<open>
  The float operations: the exact result, rounded. \<open>f64_div\<close> is only applied to a
  divisor that is not zero; \<open>f64_of_int\<close> is the conversion of a Python integer that
  meets a float in an operation.
\<close>

definition f64_add :: "real \<Rightarrow> real \<Rightarrow> real" where
  "f64_add x y = round_binary64 (x + y)"

definition f64_sub :: "real \<Rightarrow> real \<Rightarrow> real" where
  "f64_sub x y = round_binary64 (x - y)"

definition f64_mul :: "real \<Rightarrow> real \<Rightarrow> real" where
  "f64_mul x y = round_binary64 (x * y)"

definition f64_div :: "real \<Rightarrow> real \<Rightarrow> real" where
  "f64_div x y = round_binary64 (x / y)"

definition f64_of_int :: "int \<Rightarrow> real" where
  "f64_of_int i = round_binary64 (real_of_int i)"

subsection \<open>Constants and tax model\<close>

text \<open>A float literal of the source is the binary64 number nearest to the decimal.\<close>

definition SOCIAL_SECURITY_FACTOR_MAIN_f64 :: real where
  "SOCIAL_SECURITY_FACTOR_MAIN_f64 = f64_add (round_binary64 0.148) (round_binary64 0.05)"

definition SOCIAL_SECURITY_FACTOR_HEALTH_f64 :: real where
  "SOCIAL_SECURITY_FACTOR_HEALTH_f64 = round_binary64 0.08"

definition INCOME_TAX_FACTOR_f64 :: real where
  "INCOME_TAX_FACTOR_f64 = round_binary64 0.10"

definition DIVIDEND_TAX_FACTOR_f64 :: real where
  "DIVIDEND_TAX_FACTOR_f64 = round_binary64 0.05"

definition RECOGNIZED_EXPENSES_INDIVIDUAL_f64 :: real where
  "RECOGNIZED_EXPENSES_INDIVIDUAL_f64 = round_binary64 0.25"

text \<open>
  In the comparison of \<open>get_net_individual\<close> the gross income is a NumPy \<^verbatim>\<open>float64\<close> and
  the maximum base a Python integer, which NumPy converts to \<^verbatim>\<open>float64\<close>; the conversion
  is exact for a base of magnitude up to \<open>2 ^ 53\<close>.
\<close>

definition soc_sec_factor_f64 :: "args \<Rightarrow> real" where
  "soc_sec_factor_f64 a =
     (if citizen a then f64_add SOCIAL_SECURITY_FACTOR_MAIN_f64 SOCIAL_SECURITY_FACTOR_HEALTH_f64
      else SOCIAL_SECURITY_FACTOR_MAIN_f64)"

definition get_net_company_f64 :: "args \<Rightarrow> real \<Rightarrow> real" where
  "get_net_company_f64 a gross =
     (let soc_sec = f64_mul (f64_of_int (socsec_base_min a)) (soc_sec_factor_f64 a);
          income_tax_base = f64_sub (f64_sub gross (f64_of_int FIXED_EXPENSES_COMPANY)) soc_sec;
          income_tax = f64_mul income_tax_base INCOME_TAX_FACTOR_f64;
          net_company = f64_sub (f64_sub (f64_sub gross soc_sec) income_tax)
                          (f64_of_int FIXED_EXPENSES_COMPANY)
      in f64_mul net_company (f64_sub (round_binary64 1.0) DIVIDEND_TAX_FACTOR_f64))"

definition get_net_individual_f64 :: "args \<Rightarrow> real \<Rightarrow> real" where
  "get_net_individual_f64 a gross =
     (let soc_sec_base = gross;
          soc_sec_base = (if soc_sec_base > f64_of_int (socsec_base_max a)
                          then f64_of_int (socsec_base_max a) else soc_sec_base);
          soc_sec = f64_mul soc_sec_base (soc_sec_factor_f64 a);
          income_tax_base =
            f64_sub (f64_mul gross (f64_sub (round_binary64 1.0) RECOGNIZED_EXPENSES_INDIVIDUAL_f64))
              soc_sec;
          income_tax = f64_mul income_tax_base INCOME_TAX_FACTOR_f64
      in f64_sub (f64_sub (f64_sub gross soc_sec) income_tax)
           (f64_of_int FIXED_EXPENSES_INDIVIDUAL))"

subsection \<open>Series\<close>

text \<open>
  \<^verbatim>\<open>np.linspace\<close> computes \<^verbatim>\<open>delta = stop - start\<close>, \<^verbatim>\<open>step = delta / div\<close>,
  \<^verbatim>\<open>y = arange(0, num) * step + start\<close> (or \<^verbatim>\<open>y / div * delta + start\<close> when the step is
  zero) and then overwrites the last element with \<^verbatim>\<open>stop\<close>; every operation rounds. The
  bounds reach it as Python integers and are converted first.
\<close>

definition np_linspace_f64 :: "real \<Rightarrow> real \<Rightarrow> nat \<Rightarrow> real list" where
  "np_linspace_f64 start stop num =
     (let dv = num - 1;
          delta = f64_sub stop start;
          y = map real [0..<num];
          y = (if dv > 0 then
                 (let step = f64_div delta (real dv)
                  in if step = 0 then map (\<lambda>v. f64_mul (f64_div v (real dv)) delta) y
                     else map (\<lambda>v. f64_mul v step) y)
               else map (\<lambda>v. f64_mul v delta) y);
          y = map (\<lambda>v. f64_add v start) y
      in if num > 1 then y[num - 1 := stop] else y)"

definition np_divide_f64 :: "real \<Rightarrow> real \<Rightarrow> float64" where
  "np_divide_f64 x y =
     (if y \<noteq> 0 then Finite (round_binary64 (x / y))
      else if x > 0 then PosInf
      else if x < 0 then NegInf
      else NaN)"

fun np_subtract_f64 :: "real \<Rightarrow> float64 \<Rightarrow> float64" where
  "np_subtract_f64 x (Finite y) = Finite (round_binary64 (x - y))"
| "np_subtract_f64 x PosInf = NegInf"
| "np_subtract_f64 x NegInf = PosInf"
| "np_subtract_f64 x NaN = NaN"

definition plot_func_f64 :: "args \<Rightarrow> int \<times> int \<Rightarrow> plot_data" where
  "plot_func_f64 a x =
     (let x = np_linspace_f64 (f64_of_int (fst x)) (f64_of_int (snd x)) 200;
          y_company = map (\<lambda>gross. np_subtract_f64 1
                             (np_divide_f64 (get_net_company_f64 a gross) gross)) x;
          y_individual = map (\<lambda>gross. np_subtract_f64 1
                                (np_divide_f64 (get_net_individual_f64 a gross) gross)) x
      in \<lparr>plot_x = x, y_company = y_company, y_individual = y_individual\<rparr>)"

section \<open>Properties\<close>

lemmas constants_defs =
  SOCIAL_SECURITY_FACTOR_MAIN_def SOCIAL_SECURITY_FACTOR_HEALTH_def INCOME_TAX_FACTOR_def
  DIVIDEND_TAX_FACTOR_def RECOGNIZED_EXPENSES_INDIVIDUAL_def FIXED_EXPENSES_INDIVIDUAL_def
  FIXED_EXPENSES_COMPANY_def

subsection \<open>Auxiliary facts\<close>

lemma soc_sec_factor_cases: "soc_sec_factor a = 0.198 \<or> soc_sec_factor a = 0.278"
  by (simp add: soc_sec_factor_def constants_defs)

lemma soc_sec_factor_nonneg: "0 \<le> soc_sec_factor a"
  using soc_sec_factor_cases [of a] by auto

text \<open>The functions return what their locals say.\<close>

lemma get_net_company_locals_result:
  "get_net_company a gross =
     co_net_company (get_net_company_locals a gross) * (1.0 - DIVIDEND_TAX_FACTOR)"
  by (simp add: get_net_company_def get_net_company_locals_def Let_def)

lemma get_net_individual_locals_result:
  "get_net_individual a gross =
     gross - in_soc_sec (get_net_individual_locals a gross)
       - in_income_tax (get_net_individual_locals a gross)
       - real_of_int FIXED_EXPENSES_INDIVIDUAL"
  by (simp add: get_net_individual_def get_net_individual_locals_def Let_def)

text \<open>Both net incomes are piecewise linear in the gross income.\<close>

lemma get_net_company_linear:
  "get_net_company a g =
     0.855 * g - 0.855 * (real_of_int (socsec_base_min a) * soc_sec_factor a) - 141.075"
  by (simp add: get_net_company_def constants_defs Let_def field_simps)

lemma get_net_individual_linear:
  "get_net_individual a g =
     0.925 * g - 0.9 * (soc_sec_factor a * min g (real_of_int (socsec_base_max a))) - 155"
  by (simp add: get_net_individual_def constants_defs Let_def min_def field_simps)

text \<open>The samples of \<open>np_linspace\<close>.\<close>

lemma length_np_linspace: "length (np_linspace start stop num) = num"
  by (simp add: np_linspace_def Let_def)

lemma np_linspace_nth:
  assumes "1 < num" "i < num"
  shows "np_linspace start stop num ! i =
           (if i = num - 1 then stop else real i * ((stop - start) / real (num - 1)) + start)"
  using assms by (simp add: np_linspace_def Let_def nth_list_update)

lemma np_linspace_endpoint:
  assumes "1 < num"
  shows "real (num - 1) * ((stop - start) / real (num - 1)) + start = stop"
  using assms by simp

lemma np_linspace_nth_uniform:
  assumes "1 < num" "i < num"
  shows "np_linspace start stop num ! i = start + real i * ((stop - start) / real (num - 1))"
  using assms np_linspace_endpoint [OF assms(1), of stop start]
  by (simp add: np_linspace_nth add.commute)

lemma plot_x_nth:
  assumes "i < 200"
  shows "plot_x (plot_func a (lo, hi)) ! i
           = real_of_int lo + real i * ((real_of_int hi - real_of_int lo) / 199)"
  using assms by (simp add: plot_func_def Let_def np_linspace_nth_uniform)

lemma y_company_nth:
  assumes "i < 200"
  shows "y_company (plot_func a x) ! i =
           np_subtract 1 (np_divide (get_net_company a (plot_x (plot_func a x) ! i))
                                    (plot_x (plot_func a x) ! i))"
  using assms by (simp add: plot_func_def Let_def length_np_linspace)

lemma y_individual_nth:
  assumes "i < 200"
  shows "y_individual (plot_func a x) ! i =
           np_subtract 1 (np_divide (get_net_individual a (plot_x (plot_func a x) ! i))
                                    (plot_x (plot_func a x) ! i))"
  using assms by (simp add: plot_func_def Let_def length_np_linspace)

subsection \<open>Facts about the rounding\<close>

text \<open>
  Where the magnitude of \<open>x\<close>, scaled by a power of two, lies between \<open>2 ^ 52\<close> and \<open>2 ^ 53\<close>,
  \<open>round_binary64\<close> rounds the scaled magnitude to an integer; this evaluates a rounding
  without the power \<open>2 ^ 1074\<close>.
\<close>

lemma round_half_even_of_int: "round_half_even (of_int n) = n"
  by (simp add: round_half_even_def)

lemma bitlen_eq:
  assumes "2 ^ n \<le> (N::int)" "N < 2 ^ Suc n"
  shows "bitlen N = int n + 1"
proof -
  have "bitlen N \<le> int (Suc n)"
    unfolding bitlen_le_iff_power nat_int using assms(2) by simp
  moreover have "int (Suc n) \<le> bitlen N"
    unfolding bitlen_ge_iff_power nat_int using assms(1) by simp
  ultimately show ?thesis by simp
qed

lemma round_binary64_shift:
  assumes "2 ^ (52 + j) \<le> \<bar>x\<bar> * 2 ^ 1074" and "\<bar>x\<bar> * 2 ^ 1074 < 2 ^ (53 + j)"
  shows "round_binary64 x =
           sgn x * (of_int (round_half_even (\<bar>x\<bar> * 2 ^ 1074 / 2 ^ j)) * 2 ^ j / 2 ^ 1074)"
proof -
  define u where "u = \<bar>x\<bar> * 2 ^ 1074"
  have lo: "(2::int) ^ (52 + j) \<le> \<lfloor>u\<rfloor>"
    using assms(1) unfolding u_def by (simp add: le_floor_iff)
  have hi: "\<lfloor>u\<rfloor> < (2::int) ^ Suc (52 + j)"
    using assms(2) unfolding u_def by (simp add: floor_less_iff)
  have "bitlen \<lfloor>u\<rfloor> = int (52 + j) + 1"
    using lo hi by (rule bitlen_eq)
  then have "nat (bitlen \<lfloor>u\<rfloor> - 53) = j" by simp
  then show ?thesis
    by (simp add: round_binary64_def Let_def u_def)
qed

lemma round_binary64_small:
  assumes "2 ^ 52 \<le> \<bar>x\<bar> * 2 ^ k" and "\<bar>x\<bar> * 2 ^ k < 2 ^ 53" and "k \<le> 1074"
  shows "round_binary64 x = sgn x * (of_int (round_half_even (\<bar>x\<bar> * 2 ^ k)) / 2 ^ k)"
proof -
  define j where "j = 1074 - k"
  have k: "1074 = k + j" using assms(3) by (simp add: j_def)
  have p: "(2::real) ^ 1074 = 2 ^ k * 2 ^ j"
    unfolding k by (simp add: power_add)
  have a: "2 ^ (52 + j) \<le> \<bar>x\<bar> * 2 ^ 1074"
    unfolding p power_add using assms(1) by (simp add: mult.assoc [symmetric])
  have b: "\<bar>x\<bar> * 2 ^ 1074 < 2 ^ (53 + j)"
    unfolding p power_add using assms(2) by (simp add: mult.assoc [symmetric])
  show ?thesis
    unfolding round_binary64_shift [OF a b] unfolding p by simp
qed

lemma round_binary64_large:
  assumes "2 ^ 52 \<le> \<bar>x\<bar> / 2 ^ k" and "\<bar>x\<bar> / 2 ^ k < 2 ^ 53"
  shows "round_binary64 x = sgn x * (of_int (round_half_even (\<bar>x\<bar> / 2 ^ k)) * 2 ^ k)"
proof -
  have a: "2 ^ (52 + (1074 + k)) \<le> \<bar>x\<bar> * 2 ^ 1074"
    using assms(1) by (simp add: power_add field_simps)
  have b: "\<bar>x\<bar> * 2 ^ 1074 < 2 ^ (53 + (1074 + k))"
    using assms(2) by (simp add: power_add field_simps)
  show ?thesis
    unfolding round_binary64_shift [OF a b] by (simp add: power_add)
qed

lemma round_binary64_zero: "round_binary64 0 = 0"
  by (simp add: round_binary64_def)

text \<open>
  A number with a significand of at most 53 bits is its own rounding; hence rounding is
  idempotent, and an integer of magnitude up to \<open>2 ^ 53\<close> is converted exactly.
\<close>

lemma round_half_even_bounds:
  "\<lfloor>v\<rfloor> \<le> round_half_even v" "round_half_even v \<le> \<lfloor>v\<rfloor> + 1"
  by (simp_all add: round_half_even_def Let_def)

lemma round_binary64_representable:
  fixes m :: int and j :: nat
  assumes "\<bar>x\<bar> * 2 ^ 1074 = of_int m * 2 ^ j" and "m \<le> 2 ^ 53"
  shows "round_binary64 x = x"
proof (cases "m \<le> 0")
  case True
  then have "real_of_int m * 2 ^ j \<le> 0"
    by (simp add: mult_le_0_iff)
  with assms(1) have "\<bar>x\<bar> * 2 ^ 1074 \<le> 0" by simp
  then have "x = 0" by (simp add: mult_le_0_iff)
  then show ?thesis by (simp add: round_binary64_zero)
next
  case False
  then have m: "0 < m" by simp
  define u where "u = \<bar>x\<bar> * 2 ^ 1074"
  have u: "u = of_int (m * 2 ^ j)"
    using assms(1) by (simp add: u_def)
  have fl: "\<lfloor>u\<rfloor> = m * 2 ^ j"
    unfolding u by (rule floor_of_int)
  have bl: "bitlen \<lfloor>u\<rfloor> = bitlen m + int j"
    unfolding fl using m by simp
  have b54: "bitlen m \<le> 54"
    using assms(2) by (simp add: bitlen_le_iff_power)
  have x: "sgn x * (u / 2 ^ 1074) = x"
    by (simp add: u_def sgn_mult_abs)
  show ?thesis
  proof (cases "bitlen m \<le> 53")
    case True
    define s where "s = nat (bitlen m + int j - 53)"
    have "s \<le> j" using True by (simp add: s_def)
    then obtain d where j: "j = d + s"
      by (metis le_add_diff_inverse2)
    have v: "u / 2 ^ s = of_int (m * 2 ^ d)"
      unfolding u j by (simp add: power_add)
    have r: "round_half_even (u / 2 ^ s) = m * 2 ^ d"
      unfolding v by (rule round_half_even_of_int)
    have "round_binary64 x = sgn x * (of_int (m * 2 ^ d) * 2 ^ s / 2 ^ 1074)"
      unfolding round_binary64_def Let_def u_def [symmetric] bl s_def [symmetric] r ..
    also have "of_int (m * 2 ^ d) * 2 ^ s = u"
      unfolding u j by (simp add: power_add)
    finally show ?thesis using x by simp
  next
    case False
    with b54 have "bitlen m = 54" by simp
    then have "2 ^ 53 \<le> m"
      using bitlen_ge_iff_power [of 54 m] by simp
    with assms(2) have m53: "m = 2 ^ 53" by simp
    have s: "nat (bitlen m + int j - 53) = Suc j"
      using \<open>bitlen m = 54\<close> by simp
    have v: "u / 2 ^ Suc j = of_int (2 ^ 52)"
      unfolding u m53 by simp
    have r: "round_half_even (u / 2 ^ Suc j) = 2 ^ 52"
      unfolding v by (rule round_half_even_of_int)
    have "round_binary64 x = sgn x * (of_int (2 ^ 52) * 2 ^ Suc j / 2 ^ 1074)"
      unfolding round_binary64_def Let_def u_def [symmetric] bl s r ..
    also have "of_int (2 ^ 52) * 2 ^ Suc j = u"
      unfolding u m53 by simp
    finally show ?thesis using x by simp
  qed
qed

lemma round_binary64_mantissa:
  fixes x :: real
  defines "u \<equiv> \<bar>x\<bar> * 2 ^ 1074"
  defines "s \<equiv> nat (bitlen \<lfloor>u\<rfloor> - 53)"
  shows "0 \<le> round_half_even (u / 2 ^ s)" and "round_half_even (u / 2 ^ s) \<le> 2 ^ 53"
proof -
  have u0: "0 \<le> u" by (simp add: u_def)
  then have "0 \<le> u / 2 ^ s" by simp
  then have "0 \<le> \<lfloor>u / 2 ^ s\<rfloor>" by simp
  then show "0 \<le> round_half_even (u / 2 ^ s)"
    using round_half_even_bounds(1) [of "u / 2 ^ s"] by linarith
  have "bitlen \<lfloor>u\<rfloor> \<le> int (s + 53)"
    by (simp add: s_def)
  then have "\<lfloor>u\<rfloor> < 2 ^ (s + 53)"
    unfolding bitlen_le_iff_power nat_int by simp
  then have "\<lfloor>u\<rfloor> + 1 \<le> 2 ^ (s + 53)" by simp
  then have "real_of_int (\<lfloor>u\<rfloor> + 1) \<le> real_of_int (2 ^ (s + 53))"
    by (simp only: of_int_le_iff)
  then have "real_of_int \<lfloor>u\<rfloor> + 1 \<le> 2 ^ (s + 53)"
    by simp
  then have "u < 2 ^ (s + 53)"
    using real_of_int_floor_add_one_gt [of u] by linarith
  then have "u / 2 ^ s < 2 ^ 53"
    by (simp add: power_add field_simps)
  then have "\<lfloor>u / 2 ^ s\<rfloor> < 2 ^ 53"
    by (simp add: floor_less_iff)
  then show "round_half_even (u / 2 ^ s) \<le> 2 ^ 53"
    using round_half_even_bounds(2) [of "u / 2 ^ s"] by linarith
qed

lemma round_binary64_idem: "round_binary64 (round_binary64 x) = round_binary64 x"
proof (cases "x = 0")
  case True
  then show ?thesis by (simp add: round_binary64_zero)
next
  case False
  define u where "u = \<bar>x\<bar> * 2 ^ 1074"
  define s where "s = nat (bitlen \<lfloor>u\<rfloor> - 53)"
  define m where "m = round_half_even (u / 2 ^ s)"
  have m: "0 \<le> m" "m \<le> 2 ^ 53"
    unfolding m_def s_def u_def by (rule round_binary64_mantissa)+
  have r: "round_binary64 x = sgn x * (of_int m * 2 ^ s / 2 ^ 1074)"
    by (simp add: round_binary64_def Let_def u_def s_def m_def)
  have "\<bar>round_binary64 x\<bar> * 2 ^ 1074 = of_int m * 2 ^ s"
    unfolding r using False m(1) by (simp add: abs_mult abs_sgn_eq)
  then show ?thesis using m(2) by (rule round_binary64_representable)
qed

lemma f64_of_int_exact:
  assumes "\<bar>i\<bar> \<le> 2 ^ 53"
  shows "f64_of_int i = real_of_int i"
proof -
  have "\<bar>real_of_int i\<bar> * 2 ^ 1074 = of_int \<bar>i\<bar> * 2 ^ 1074" by simp
  then show ?thesis
    unfolding f64_of_int_def using assms by (rule round_binary64_representable)
qed


text \<open>
  The rounding error: at most half a unit in the last place, which is at most the
  fraction \<open>2 ^ - 53\<close> of the magnitude (or \<open>2 ^ - 1075\<close> in the subnormal range).
\<close>

lemma round_half_even_error: "\<bar>real_of_int (round_half_even v) - v\<bar> \<le> 1 / 2"
proof -
  have "real_of_int \<lfloor>v\<rfloor> \<le> v" "v < real_of_int \<lfloor>v\<rfloor> + 1"
    by linarith+
  then show ?thesis
    by (auto simp add: round_half_even_def Let_def abs_le_iff)
qed

lemma round_binary64_error:
  "\<bar>round_binary64 x - x\<bar> \<le> \<bar>x\<bar> / 2 ^ 53 + 1 / 2 ^ 1075"
proof -
  define P :: real where "P = 2 ^ 1074"
  define u where "u = \<bar>x\<bar> * P"
  define s where "s = nat (bitlen \<lfloor>u\<rfloor> - 53)"
  define m where "m = round_half_even (u / 2 ^ s)"
  have P: "0 < P" by (simp add: P_def)
  have u0: "0 \<le> u" using P by (simp add: u_def)
  have r: "round_binary64 x = sgn x * (of_int m * 2 ^ s / P)"
    by (simp add: round_binary64_def Let_def u_def s_def m_def P_def)
  have x: "sgn x * (u / P) = x"
    using P by (simp add: u_def sgn_mult_abs)
  have "round_binary64 x - x = sgn x * (of_int m * 2 ^ s / P) - sgn x * (u / P)"
    unfolding r x ..
  also have "\<dots> = sgn x * ((of_int m * 2 ^ s - u) / P)"
    by (simp add: algebra_simps diff_divide_distrib)
  finally have "\<bar>round_binary64 x - x\<bar> = \<bar>sgn x\<bar> * (\<bar>of_int m * 2 ^ s - u\<bar> / P)"
    using P by (simp add: abs_mult)
  also have "\<dots> \<le> 1 * (\<bar>of_int m * 2 ^ s - u\<bar> / P)"
    using P by (intro mult_right_mono) (simp_all add: abs_sgn_eq)
  finally have a: "\<bar>round_binary64 x - x\<bar> \<le> \<bar>of_int m * 2 ^ s - u\<bar> / P" by simp
  have "of_int m * 2 ^ s - u = (of_int m - u / 2 ^ s) * 2 ^ s"
    by (simp add: algebra_simps)
  then have "\<bar>of_int m * 2 ^ s - u\<bar> = \<bar>of_int m - u / 2 ^ s\<bar> * 2 ^ s"
    by (simp add: abs_mult)
  also have "\<dots> \<le> 1 / 2 * 2 ^ s"
    unfolding m_def by (intro mult_right_mono round_half_even_error) simp
  finally have b: "\<bar>of_int m * 2 ^ s - u\<bar> \<le> 2 ^ s / 2" by simp
  have c: "2 ^ s / 2 \<le> u / 2 ^ 53 + 1 / 2"
  proof (cases "s = 0")
    case True
    then show ?thesis using u0 by simp
  next
    case False
    then have "int (s + 53) \<le> bitlen \<lfloor>u\<rfloor>" by (simp add: s_def)
    then have "2 ^ (s + 53 - 1) \<le> \<lfloor>u\<rfloor>"
      unfolding bitlen_ge_iff_power nat_int by simp
    then have "2 ^ (s + 52) \<le> \<lfloor>u\<rfloor>" by (simp add: add.commute)
    then have "2 ^ (s + 52) \<le> u" by (simp add: le_floor_iff)
    then have "2 ^ s * 2 ^ 52 \<le> u" by (simp add: power_add)
    then show ?thesis by (simp add: field_simps)
  qed
  from b c have "\<bar>of_int m * 2 ^ s - u\<bar> \<le> u / 2 ^ 53 + 1 / 2" by linarith
  then have "\<bar>of_int m * 2 ^ s - u\<bar> / P \<le> (u / 2 ^ 53 + 1 / 2) / P"
    using P by (simp add: divide_right_mono)
  also have "\<dots> = \<bar>x\<bar> / 2 ^ 53 + 1 / (2 * P)"
    using P by (simp add: u_def add_divide_distrib)
  also have "2 * P = 2 ^ 1075"
    by (simp add: P_def)
  finally show ?thesis using a by linarith
qed

lemma round_binary64_error_bound:
  assumes "\<bar>x\<bar> \<le> B" and "1 \<le> B"
  shows "\<bar>round_binary64 x - x\<bar> \<le> B / 2 ^ 52"
proof -
  have "(1::real) / 2 ^ 1075 \<le> 1 / 2 ^ 53"
    by (intro divide_left_mono power_increasing) simp_all
  also have "\<dots> \<le> B / 2 ^ 53" using assms(2) by (simp add: divide_right_mono)
  finally have e: "(1::real) / 2 ^ 1075 \<le> B / 2 ^ 53" .
  have "\<bar>x\<bar> / 2 ^ 53 \<le> B / 2 ^ 53" using assms(1) by (simp add: divide_right_mono)
  with e round_binary64_error [of x] have "\<bar>round_binary64 x - x\<bar> \<le> B / 2 ^ 53 + B / 2 ^ 53"
    by linarith
  then show ?thesis by simp
qed

text \<open>The roundings that the concrete runs below go through, one lemma for each.\<close>

lemma rb_0_148: "round_binary64 (37 / 250) = 5332261958806667 / 36028797018963968"
  by (subst round_binary64_small [where k = 55]) (simp_all add: round_half_even_def)

lemma rb_0_05: "round_binary64 (1 / 20) = 3602879701896397 / 72057594037927936"
  by (subst round_binary64_small [where k = 57]) (simp_all add: round_half_even_def)

lemma rb_factor_main: "round_binary64 (14267403619509731 / 72057594037927936)
     = 3566850904877433 / 18014398509481984"
  by (subst round_binary64_small [where k = 55]) (simp_all add: round_half_even_def)

lemma rb_0_25: "round_binary64 (1 / 4) = 1 / 4"
  by (subst round_binary64_small [where k = 54]) (simp_all add: round_half_even_def)

lemma rb_1: "round_binary64 (1) = 1"
  by (subst round_binary64_small [where k = 52]) (simp_all add: round_half_even_def)

lemma rb_0_75: "round_binary64 (3 / 4) = 3 / 4"
  by (subst round_binary64_small [where k = 53]) (simp_all add: round_half_even_def)

lemma rb_0_10: "round_binary64 (1 / 10) = 3602879701896397 / 36028797018963968"
  by (subst round_binary64_small [where k = 56]) (simp_all add: round_half_even_def)

lemma rb_g1: "round_binary64 (4398046511104001 / 4398046511104) = 4398046511104001 / 4398046511104"
  by (subst round_binary64_small [where k = 43]) (simp_all add: round_half_even_def)

lemma rb_g1_soc_sec: "round_binary64 (15687176177824343149244420909433 / 79228162514264337593543950336)
     = 3483252836794369 / 17592186044416"
  by (subst round_binary64_small [where k = 45]) (simp_all add: round_half_even_def)

lemma rb_g1_recognized: "round_binary64 (13194139533312003 / 17592186044416)
     = 3298534883328001 / 4398046511104"
  by (subst round_binary64_small [where k = 43]) (simp_all add: round_half_even_def)

lemma rb_g1_tax_base: "round_binary64 (9710886696517635 / 17592186044416)
     = 2427721674129409 / 4398046511104"
  by (subst round_binary64_small [where k = 43]) (simp_all add: round_half_even_def)

lemma rb_g1_tax: "round_binary64 (8746789141574786958751288839373 / 158456325028528675187087900672)
     = 7768709357214109 / 140737488355328"
  by (subst round_binary64_small [where k = 47]) (simp_all add: round_half_even_def)

lemma rb_g1_net1: "round_binary64 (14108933207621635 / 17592186044416)
     = 3527233301905409 / 4398046511104"
  by (subst round_binary64_small [where k = 43]) (simp_all add: round_half_even_def)

lemma rb_g1_net2: "round_binary64 (105102756303758979 / 140737488355328)
     = 821115283623117 / 1099511627776"
  by (subst round_binary64_small [where k = 43]) (simp_all add: round_half_even_def)

lemma rb_g1_net3: "round_binary64 (650690981317837 / 1099511627776)
     = 650690981317837 / 1099511627776"
  by (subst round_binary64_small [where k = 43]) (simp_all add: round_half_even_def)

lemma rb_g2: "round_binary64 (8796093022208003 / 8796093022208) = 8796093022208003 / 8796093022208"
  by (subst round_binary64_small [where k = 43]) (simp_all add: round_half_even_def)

lemma rb_g2_soc_sec: "round_binary64 (31374352355648689865339746696299 / 158456325028528675187087900672)
     = 6966505673588739 / 35184372088832"
  by (subst round_binary64_small [where k = 45]) (simp_all add: round_half_even_def)

lemma rb_g2_recognized: "round_binary64 (26388279066624009 / 35184372088832)
     = 3298534883328001 / 4398046511104"
  by (subst round_binary64_small [where k = 43]) (simp_all add: round_half_even_def)

lemma rb_g2_tax_base: "round_binary64 (19421773393035269 / 35184372088832)
     = 4855443348258817 / 8796093022208"
  by (subst round_binary64_small [where k = 43]) (simp_all add: round_half_even_def)

lemma rb_g2_tax: "round_binary64 (17493578283149570314622875782349 / 316912650057057350374175801344)
     = 1942177339303527 / 35184372088832"
  by (subst round_binary64_small [where k = 47]) (simp_all add: round_half_even_def)

lemma rb_g2_net1: "round_binary64 (28217866415243273 / 35184372088832)
     = 3527233301905409 / 4398046511104"
  by (subst round_binary64_small [where k = 43]) (simp_all add: round_half_even_def)

lemma rb_g2_net2: "round_binary64 (26275689075939745 / 35184372088832)
     = 821115283623117 / 1099511627776"
  by (subst round_binary64_small [where k = 43]) (simp_all add: round_half_even_def)

lemma rb_delta: "round_binary64 (20) = 20"
  by (subst round_binary64_small [where k = 48]) (simp_all add: round_half_even_def)

lemma rb_step: "round_binary64 (20 / 199) = 7241969250043009 / 72057594037927936"
  by (subst round_binary64_small [where k = 56]) (simp_all add: round_half_even_def)

lemma rb_y2: "round_binary64 (7241969250043009 / 36028797018963968)
     = 7241969250043009 / 36028797018963968"
  by (subst round_binary64_small [where k = 55]) (simp_all add: round_half_even_def)

lemma rb_x2: "round_binary64 (36028797018963975241969250043009 / 36028797018963968)
     = 4000000000000001 / 4"
  by (subst round_binary64_small [where k = 3]) (simp_all add: round_half_even_def)

lemma rb_y3: "round_binary64 (21725907750129027 / 72057594037927936)
     = 5431476937532257 / 18014398509481984"
  by (subst round_binary64_small [where k = 54]) (simp_all add: round_half_even_def)

lemma rb_x3: "round_binary64 (18014398509481989431476937532257 / 18014398509481984)
     = 4000000000000001 / 4"
  by (subst round_binary64_small [where k = 3]) (simp_all add: round_half_even_def)

lemma rb_2p53_1: "round_binary64 (9007199254740993) = 9007199254740992"
  by (subst round_binary64_large [where k = 1]) (simp_all add: round_half_even_def)

lemmas f64_defs = f64_add_def f64_sub_def f64_mul_def f64_div_def
  SOCIAL_SECURITY_FACTOR_MAIN_f64_def SOCIAL_SECURITY_FACTOR_HEALTH_f64_def
  INCOME_TAX_FACTOR_f64_def DIVIDEND_TAX_FACTOR_f64_def RECOGNIZED_EXPENSES_INDIVIDUAL_f64_def

lemma soc_sec_factor_f64_2021:
  "soc_sec_factor_f64 args_2021 = 3566850904877433 / 18014398509481984"
  by (simp add: soc_sec_factor_f64_def args_2021_def f64_defs rb_0_148 rb_0_05 rb_factor_main)

lemma socsec_base_max_2021: "socsec_base_max args_2021 = 3000"
  by (simp add: args_2021_def)

text \<open>The samples of \<open>np_linspace_f64\<close>.\<close>

lemma length_np_linspace_f64: "length (np_linspace_f64 start stop num) = num"
  by (simp add: np_linspace_f64_def Let_def)

lemma np_linspace_f64_nth:
  assumes "1 < num" "i < num"
  shows "np_linspace_f64 start stop num ! i =
           (if i = num - 1 then stop
            else if f64_div (f64_sub stop start) (real (num - 1)) = 0
              then f64_add (f64_mul (f64_div (real i) (real (num - 1))) (f64_sub stop start)) start
              else f64_add (f64_mul (real i) (f64_div (f64_sub stop start) (real (num - 1)))) start)"
  using assms by (simp add: np_linspace_f64_def Let_def nth_list_update)

lemma np_linspace_f64_first:
  assumes "1 < num"
  shows "np_linspace_f64 (round_binary64 a) stop num ! 0 = round_binary64 a"
  using assms
  by (simp add: np_linspace_f64_nth f64_add_def f64_mul_def f64_div_def round_binary64_zero
      round_binary64_idem)

lemma plot_x_f64_nth:
  assumes "i < 200"
  shows "plot_x (plot_func_f64 a (lo, hi)) ! i =
           (if i = 199 then f64_of_int hi
            else if f64_div (f64_sub (f64_of_int hi) (f64_of_int lo)) 199 = 0
              then f64_add (f64_mul (f64_div (real i) 199) (f64_sub (f64_of_int hi) (f64_of_int lo)))
                     (f64_of_int lo)
              else f64_add (f64_mul (real i) (f64_div (f64_sub (f64_of_int hi) (f64_of_int lo)) 199))
                     (f64_of_int lo))"
  using assms by (simp add: plot_func_f64_def Let_def np_linspace_f64_nth)

lemma plot_func_f64_shape:
  "length (plot_x (plot_func_f64 a (lo, hi))) = 200"
  "length (y_company (plot_func_f64 a (lo, hi))) = 200"
  "length (y_individual (plot_func_f64 a (lo, hi))) = 200"
  "plot_x (plot_func_f64 a (lo, hi)) ! 0 = f64_of_int lo"
  "plot_x (plot_func_f64 a (lo, hi)) ! 199 = f64_of_int hi"
proof -
  show "length (plot_x (plot_func_f64 a (lo, hi))) = 200"
    "length (y_company (plot_func_f64 a (lo, hi))) = 200"
    "length (y_individual (plot_func_f64 a (lo, hi))) = 200"
    by (simp_all add: plot_func_f64_def Let_def length_np_linspace_f64)
  show "plot_x (plot_func_f64 a (lo, hi)) ! 0 = f64_of_int lo"
    by (simp add: plot_func_f64_def Let_def f64_of_int_def np_linspace_f64_first)
  show "plot_x (plot_func_f64 a (lo, hi)) ! 199 = f64_of_int hi"
    by (simp add: plot_x_f64_nth)
qed

subsection \<open>How far the binary64 results are from the exact values\<close>

text \<open>The constants of the binary64 model.\<close>

lemma rb_0_08: "round_binary64 (2 / 25) = 5764607523034235 / 72057594037927936"
  by (subst round_binary64_small [where k = 56]) (simp_all add: round_half_even_def)

lemma rb_factor_citizen:
  "round_binary64 (20032011142543967 / 72057594037927936) = 626000348204499 / 2251799813685248"
  by (subst round_binary64_small [where k = 54]) (simp_all add: round_half_even_def)

lemma soc_sec_factor_f64_cases:
  "soc_sec_factor_f64 a = (if citizen a then 626000348204499 / 2251799813685248
                           else 3566850904877433 / 18014398509481984)"
  by (simp add: soc_sec_factor_f64_def f64_defs rb_0_148 rb_0_05 rb_factor_main rb_0_08
      rb_factor_citizen)

lemma soc_sec_factor_f64_close:
  "\<bar>soc_sec_factor_f64 a - soc_sec_factor a\<bar> \<le> 1 / 2 ^ 55"
  by (simp add: soc_sec_factor_f64_cases soc_sec_factor_def constants_defs)

lemma INCOME_TAX_FACTOR_f64_val:
  "INCOME_TAX_FACTOR_f64 = 3602879701896397 / 36028797018963968"
  by (simp add: INCOME_TAX_FACTOR_f64_def rb_0_10)

text \<open>
  The cap of the social security base: a maximum base beyond \<open>2 ^ 53\<close> is converted to a
  number of at least \<open>2 ^ 52\<close>, so the cap is the exact minimum for every gross income up
  to \<open>10 ^ 10\<close>.
\<close>

lemma f64_of_int_large:
  assumes "2 ^ 53 < i"
  shows "2 ^ 52 \<le> f64_of_int i"
proof -
  define x where "x = real_of_int i"
  have x: "2 ^ 53 < x"
    using assms unfolding x_def by (metis of_int_less_iff of_int_numeral of_int_power)
  have "(1::real) / 2 ^ 1075 \<le> 1"
    by simp
  with round_binary64_error [of x] x have "x - x / 2 ^ 53 - 1 \<le> round_binary64 x"
    by (simp add: abs_le_iff)
  moreover have "2 ^ 52 \<le> x - x / 2 ^ 53 - 1"
    using x by simp
  ultimately show ?thesis
    unfolding f64_of_int_def x_def by linarith
qed

lemma capped_base_f64:
  assumes "0 \<le> m" and "g \<le> 10 ^ 10"
  shows "(if g > f64_of_int m then f64_of_int m else g) = min g (real_of_int m)"
proof (cases "m \<le> 2 ^ 53")
  case True
  with assms(1) have "\<bar>m\<bar> \<le> 2 ^ 53" by simp
  then show ?thesis by (simp add: f64_of_int_exact min_def)
next
  case False
  then have m: "2 ^ 53 < m" by simp
  then have "2 ^ 52 \<le> f64_of_int m" by (rule f64_of_int_large)
  moreover have "(2::real) ^ 53 < real_of_int m"
    using m by (metis of_int_less_iff of_int_numeral of_int_power)
  ultimately show ?thesis using assms(2) by (simp add: min_def)
qed

text \<open>
  The seven roundings of \<open>get_net_individual\<close>, each at most \<open>2 ^ - 17\<close> for values up to
  \<open>2 ^ 35\<close>, add up to less than \<open>2 ^ - 14\<close>; \<open>p\<close> is the product of the base and the binary64
  factor, \<open>q\<close> the product of the base and the decimal factor.
\<close>

lemma round_binary64_error_35:
  assumes "- 34359738368 \<le> x" and "x \<le> 34359738368"
  shows "round_binary64 x - x \<le> 1 / 131072" and "x - round_binary64 x \<le> 1 / 131072"
proof -
  have "\<bar>x\<bar> \<le> 34359738368" using assms by linarith
  then have "\<bar>round_binary64 x - x\<bar> \<le> 1 / 131072"
    using round_binary64_error_bound [of x "34359738368"] by simp
  then show "round_binary64 x - x \<le> 1 / 131072" and "x - round_binary64 x \<le> 1 / 131072"
    by linarith+
qed

lemma net_individual_error_core:
  fixes g p q :: real
  assumes g: "0 \<le> g" "g \<le> 10000000000"
    and q: "0 \<le> q" "q \<le> g"
    and pq: "p - q \<le> 1 / 2097152" "q - p \<le> 1 / 2097152"
  shows "\<bar>round_binary64 (round_binary64 (round_binary64 (g - round_binary64 p)
            - round_binary64 (round_binary64 (round_binary64 (g * (3 / 4)) - round_binary64 p)
                * (3602879701896397 / 36028797018963968))) - 155)
          - (g - q - (g * (3 / 4) - q) * (1 / 10) - 155)\<bar> \<le> 1 / 16384"
proof -
  define ss where "ss = round_binary64 p"
  define a1 where "a1 = round_binary64 (g * (3 / 4))"
  define tb where "tb = round_binary64 (a1 - ss)"
  define tax where "tax = round_binary64 (tb * (3602879701896397 / 36028797018963968))"
  define r1 where "r1 = round_binary64 (g - ss)"
  define r2 where "r2 = round_binary64 (r1 - tax)"
  define r3 where "r3 = round_binary64 (r2 - 155)"
  have "- 34359738368 \<le> p" "p \<le> 34359738368"
    using g q pq by linarith+
  then have e1: "ss - p \<le> 1 / 131072" "p - ss \<le> 1 / 131072"
    unfolding ss_def by (rule round_binary64_error_35)+
  have "- 34359738368 \<le> g * (3 / 4)" "g * (3 / 4) \<le> 34359738368"
    using g by linarith+
  then have e2: "a1 - g * (3 / 4) \<le> 1 / 131072" "g * (3 / 4) - a1 \<le> 1 / 131072"
    unfolding a1_def by (rule round_binary64_error_35)+
  have "- 34359738368 \<le> a1 - ss" "a1 - ss \<le> 34359738368"
    using g q pq e1 e2 by linarith+
  then have e3: "tb - (a1 - ss) \<le> 1 / 131072" "(a1 - ss) - tb \<le> 1 / 131072"
    unfolding tb_def by (rule round_binary64_error_35)+
  have tb: "- 10000000001 \<le> tb" "tb \<le> 10000000001"
    using g q pq e1 e2 e3 by linarith+
  have "- 34359738368 \<le> tb * (3602879701896397 / 36028797018963968)"
    "tb * (3602879701896397 / 36028797018963968) \<le> 34359738368"
    using tb by linarith+
  then have e4: "tax - tb * (3602879701896397 / 36028797018963968) \<le> 1 / 131072"
    "tb * (3602879701896397 / 36028797018963968) - tax \<le> 1 / 131072"
    unfolding tax_def by (rule round_binary64_error_35)+
  have c: "tb * (3602879701896397 / 36028797018963968) - tb * (1 / 10) \<le> 1 / 16777216"
    "tb * (1 / 10) - tb * (3602879701896397 / 36028797018963968) \<le> 1 / 16777216"
    using tb by linarith+
  have "- 34359738368 \<le> g - ss" "g - ss \<le> 34359738368"
    using g q pq e1 by linarith+
  then have e5: "r1 - (g - ss) \<le> 1 / 131072" "(g - ss) - r1 \<le> 1 / 131072"
    unfolding r1_def by (rule round_binary64_error_35)+
  have "- 34359738368 \<le> r1 - tax" "r1 - tax \<le> 34359738368"
    using g q pq e1 e4 e5 tb by linarith+
  then have e6: "r2 - (r1 - tax) \<le> 1 / 131072" "(r1 - tax) - r2 \<le> 1 / 131072"
    unfolding r2_def by (rule round_binary64_error_35)+
  have "- 34359738368 \<le> r2 - 155" "r2 - 155 \<le> 34359738368"
    using g q pq e1 e4 e5 e6 tb by linarith+
  then have e7: "r3 - (r2 - 155) \<le> 1 / 131072" "(r2 - 155) - r3 \<le> 1 / 131072"
    unfolding r3_def by (rule round_binary64_error_35)+
  define t0 where "t0 = g * (3 / 4) - q"
  have h3: "tb - t0 \<le> 4 / 131072" "t0 - tb \<le> 4 / 131072"
    unfolding t0_def using pq e1 e2 e3 by linarith+
  have h4: "tax - t0 / 10 \<le> 2 / 131072" "t0 / 10 - tax \<le> 2 / 131072"
    using h3 e4 c by linarith+
  have h6: "r2 - (g - q - t0 / 10) \<le> 6 / 131072" "(g - q - t0 / 10) - r2 \<le> 6 / 131072"
    using pq e1 e5 e6 h4 by linarith+
  have h7: "r3 - (g - q - t0 / 10 - 155) \<le> 7 / 131072"
    "(g - q - t0 / 10 - 155) - r3 \<le> 7 / 131072"
    using h6 e7 by linarith+
  have "g - q - (g * (3 / 4) - q) * (1 / 10) - 155 = g - q - t0 / 10 - 155"
    by (simp add: t0_def)
  with h7 have "r3 - (g - q - (g * (3 / 4) - q) * (1 / 10) - 155) \<le> 1 / 16384"
    "(g - q - (g * (3 / 4) - q) * (1 / 10) - 155) - r3 \<le> 1 / 16384"
    by linarith+
  then have "\<bar>r3 - (g - q - (g * (3 / 4) - q) * (1 / 10) - 155)\<bar> \<le> 1 / 16384"
    by linarith
  then show ?thesis
    unfolding r3_def r2_def r1_def tax_def tb_def a1_def ss_def .
qed

text \<open>The slope of the exact net income of an individual is at least 0.6748.\<close>

lemma get_net_individual_slope:
  assumes "g1 \<le> g2"
  shows "6748 * (g2 - g1) \<le> 10000 * (get_net_individual a g2 - get_net_individual a g1)"
proof -
  define d where
    "d = min g2 (real_of_int (socsec_base_max a)) - min g1 (real_of_int (socsec_base_max a))"
  define x where "x = soc_sec_factor a * d"
  have d: "0 \<le> d" "d \<le> g2 - g1"
    using assms by (simp_all add: d_def min_def)
  have f: "0 \<le> soc_sec_factor a" "soc_sec_factor a \<le> 0.278"
    using soc_sec_factor_cases [of a] by auto
  have "soc_sec_factor a * d \<le> 0.278 * (g2 - g1)"
    using f d assms by (intro mult_mono) simp_all
  then have x: "x \<le> 0.278 * (g2 - g1)"
    by (simp add: x_def)
  have "get_net_individual a g2 - get_net_individual a g1 = 0.925 * (g2 - g1) - 0.9 * x"
    by (simp add: get_net_individual_linear d_def x_def field_simps)
  with x show ?thesis
    using assms by (simp add: field_simps)
qed

lemma recognized_f64_val:
  "round_binary64 (round_binary64 1 - RECOGNIZED_EXPENSES_INDIVIDUAL_f64) = 3 / 4"
  by (simp add: RECOGNIZED_EXPENSES_INDIVIDUAL_f64_def rb_1 rb_0_25 rb_0_75)

lemma get_net_individual_f64_error:
  assumes "0 \<le> socsec_base_max a" and "0 \<le> g" and "g \<le> 10000000000"
  shows "\<bar>get_net_individual_f64 a g - get_net_individual a g\<bar> \<le> 1 / 16384"
proof -
  define b where "b = min g (real_of_int (socsec_base_max a))"
  define p where "p = b * soc_sec_factor_f64 a"
  define q where "q = b * soc_sec_factor a"
  have b: "0 \<le> b" "b \<le> g"
    using assms(1,2) by (simp_all add: b_def)
  have f: "0 \<le> soc_sec_factor a" "soc_sec_factor a \<le> 1"
    using soc_sec_factor_cases [of a] by auto
  have q0: "0 \<le> q"
    unfolding q_def using b(1) f(1) by simp
  have "q \<le> b * 1"
    unfolding q_def using b(1) f(2) by (intro mult_left_mono)
  then have q1: "q \<le> g" using b(2) by simp
  have "\<bar>p - q\<bar> = b * \<bar>soc_sec_factor_f64 a - soc_sec_factor a\<bar>"
    unfolding p_def q_def using b(1) by (simp add: abs_mult right_diff_distrib [symmetric])
  also have "\<dots> \<le> 10000000000 * (1 / 2 ^ 55)"
    using b assms(3) soc_sec_factor_f64_close [of a] by (intro mult_mono) simp_all
  also have "\<dots> \<le> 1 / 2097152" by simp
  finally have "\<bar>p - q\<bar> \<le> 1 / 2097152" .
  then have pq: "p - q \<le> 1 / 2097152" "q - p \<le> 1 / 2097152"
    by linarith+
  have code: "get_net_individual_f64 a g =
      round_binary64 (round_binary64 (round_binary64 (g - round_binary64 p)
        - round_binary64 (round_binary64 (round_binary64 (g * (3 / 4)) - round_binary64 p)
            * (3602879701896397 / 36028797018963968))) - 155)"
    using assms(1,3)
    by (simp add: get_net_individual_f64_def Let_def capped_base_f64 f64_add_def f64_sub_def
        f64_mul_def recognized_f64_val INCOME_TAX_FACTOR_f64_val
        f64_of_int_exact FIXED_EXPENSES_INDIVIDUAL_def p_def b_def)
  have exact: "get_net_individual a g = g - q - (g * (3 / 4) - q) * (1 / 10) - 155"
    by (simp add: get_net_individual_def constants_defs Let_def q_def b_def min_def)
  show ?thesis
    unfolding code exact using assms(2,3) q0 q1 pq by (rule net_individual_error_core)
qed

lemma get_net_individual_f64_separated:
  assumes "0 \<le> socsec_base_max a" and "0 \<le> g1" and "g1 + 1 / 1000 \<le> g2"
    and "g2 \<le> 10000000000"
  shows "get_net_individual_f64 a g1 < get_net_individual_f64 a g2"
proof -
  have g1: "g1 \<le> 10000000000" and g2: "0 \<le> g2" and le: "g1 \<le> g2"
    using assms by linarith+
  have e1: "\<bar>get_net_individual_f64 a g1 - get_net_individual a g1\<bar> \<le> 1 / 16384"
    using assms(1,2) g1 by (rule get_net_individual_f64_error)
  have e2: "\<bar>get_net_individual_f64 a g2 - get_net_individual a g2\<bar> \<le> 1 / 16384"
    using assms(1) g2 assms(4) by (rule get_net_individual_f64_error)
  have "6748 * (g2 - g1) \<le> 10000 * (get_net_individual a g2 - get_net_individual a g1)"
    using le by (rule get_net_individual_slope)
  with assms(3) have "1 / 2000 \<le> get_net_individual a g2 - get_net_individual a g1"
    by argo
  with e1 e2 show ?thesis by linarith
qed

text \<open>
  The samples: for bounds of magnitude up to \<open>10 ^ 10\<close> each binary64 sample is within
  \<open>2 ^ - 14\<close> of the exact one, so that the binary64 samples increase strictly.
\<close>

lemma round_binary64_error_28:
  assumes "- 268435456 \<le> x" and "x \<le> 268435456"
  shows "round_binary64 x - x \<le> 1 / 16777216" and "x - round_binary64 x \<le> 1 / 16777216"
proof -
  have "\<bar>x\<bar> \<le> 268435456" using assms by linarith
  then have "\<bar>round_binary64 x - x\<bar> \<le> 1 / 16777216"
    using round_binary64_error_bound [of x "268435456"] by simp
  then show "round_binary64 x - x \<le> 1 / 16777216" and "x - round_binary64 x \<le> 1 / 16777216"
    by linarith+
qed

lemma plot_x_f64_close:
  assumes "lo < hi" and "\<bar>lo\<bar> \<le> 10000000000" and "\<bar>hi\<bar> \<le> 10000000000" and "i < 200"
  shows "\<bar>plot_x (plot_func_f64 a (lo, hi)) ! i - plot_x (plot_func a (lo, hi)) ! i\<bar>
           \<le> 1 / 16384"
proof -
  define L where "L = real_of_int lo"
  define H where "H = real_of_int hi"
  define s0 where "s0 = (H - L) / 199"
  define st where "st = round_binary64 ((H - L) / 199)"
  define r where "r = real i"
  have L: "- 10000000000 \<le> L" "L \<le> 10000000000"
    using assms(2) unfolding L_def by linarith+
  have H: "- 10000000000 \<le> H" "H \<le> 10000000000"
    using assms(3) unfolding H_def by linarith+
  have D: "1 \<le> H - L"
    using assms(1) unfolding L_def H_def by linarith
  have fl: "f64_of_int lo = L" "f64_of_int hi = H"
    using assms(2,3) unfolding L_def H_def by (simp_all add: f64_of_int_exact)
  have "\<bar>hi - lo\<bar> \<le> 2 ^ 53" using assms(2,3) by simp
  then have "f64_of_int (hi - lo) = real_of_int (hi - lo)"
    by (rule f64_of_int_exact)
  then have delta: "f64_sub H L = H - L"
    by (simp add: f64_of_int_def f64_sub_def L_def H_def)
  have "- 268435456 \<le> (H - L) / 199" "(H - L) / 199 \<le> 268435456"
    using L H by argo+
  then have e0: "st - s0 \<le> 1 / 16777216" "s0 - st \<le> 1 / 16777216"
    unfolding st_def s0_def by (rule round_binary64_error_28)+
  have s0: "1 / 199 \<le> s0" "199 * s0 = H - L"
    using D by (simp_all add: s0_def)
  have st0: "st \<noteq> 0" using e0 s0 by linarith
  have step: "f64_div (f64_sub H L) 199 = st"
    by (simp add: delta f64_div_def st_def)
  have exact: "plot_x (plot_func a (lo, hi)) ! i = L + r * s0"
    using assms(4) by (simp add: plot_x_nth L_def H_def s0_def r_def)
  show ?thesis
  proof (cases "i = 199")
    case True
    then have "plot_x (plot_func_f64 a (lo, hi)) ! i = H"
      by (simp add: plot_func_f64_shape fl)
    moreover have "L + r * s0 = H"
      using s0(2) True by (simp add: r_def)
    ultimately show ?thesis by (simp add: exact)
  next
    case False
    with assms(4) have r: "0 \<le> r" "r \<le> 198"
      by (simp_all add: r_def)
    have code: "plot_x (plot_func_f64 a (lo, hi)) ! i
                  = round_binary64 (round_binary64 (r * st) + L)"
      using assms(4) False
      by (simp add: plot_x_f64_nth fl step st0 f64_add_def f64_mul_def r_def)
    have "r * (st - s0) \<le> r * (1 / 16777216)"
      using e0(1) r(1) by (rule mult_left_mono)
    moreover have "r * (s0 - st) \<le> r * (1 / 16777216)"
      using e0(2) r(1) by (rule mult_left_mono)
    ultimately have e1: "r * st - r * s0 \<le> 198 / 16777216" "r * s0 - r * st \<le> 198 / 16777216"
      using r(2) by (simp_all add: right_diff_distrib)
    have rs: "0 \<le> r * s0" "r * s0 \<le> 198 * s0"
      using r s0(1) by (simp_all add: mult_right_mono)
    have "- 34359738368 \<le> r * st" "r * st \<le> 34359738368"
      using e1 rs s0(2) L H by linarith+
    then have e2: "round_binary64 (r * st) - r * st \<le> 1 / 131072"
      "r * st - round_binary64 (r * st) \<le> 1 / 131072"
      by (rule round_binary64_error_35)+
    have "- 34359738368 \<le> round_binary64 (r * st) + L"
      "round_binary64 (r * st) + L \<le> 34359738368"
      using e1 e2 rs s0(2) L H by linarith+
    then have e3: "round_binary64 (round_binary64 (r * st) + L)
                     - (round_binary64 (r * st) + L) \<le> 1 / 131072"
      "(round_binary64 (r * st) + L)
         - round_binary64 (round_binary64 (r * st) + L) \<le> 1 / 131072"
      by (rule round_binary64_error_35)+
    have "round_binary64 (round_binary64 (r * st) + L) - (L + r * s0) \<le> 1 / 16384"
      "(L + r * s0) - round_binary64 (round_binary64 (r * st) + L) \<le> 1 / 16384"
      using e1 e2 e3 by linarith+
    then show ?thesis
      unfolding code exact by linarith
  qed
qed

lemma plot_x_f64_increasing:
  assumes "lo < hi" and "\<bar>lo\<bar> \<le> 10000000000" and "\<bar>hi\<bar> \<le> 10000000000" and "i < 199"
  shows "plot_x (plot_func_f64 a (lo, hi)) ! i < plot_x (plot_func_f64 a (lo, hi)) ! Suc i"
    and "\<bar>plot_x (plot_func_f64 a (lo, hi)) ! Suc i - plot_x (plot_func_f64 a (lo, hi)) ! i
          - (real_of_int hi - real_of_int lo) / 199\<bar> \<le> 1 / 8192"
proof -
  have i: "i < 200" "Suc i < 200" using assms(4) by simp_all
  note c1 = plot_x_f64_close [OF assms(1,2,3) i(1), of a]
  note c2 = plot_x_f64_close [OF assms(1,2,3) i(2), of a]
  have d: "plot_x (plot_func a (lo, hi)) ! Suc i - plot_x (plot_func a (lo, hi)) ! i
             = (real_of_int hi - real_of_int lo) / 199"
    using i by (simp add: plot_x_nth field_simps)
  have "1 \<le> real_of_int hi - real_of_int lo" using assms(1) by linarith
  then have p: "1 / 199 \<le> (real_of_int hi - real_of_int lo) / 199" by simp
  show "plot_x (plot_func_f64 a (lo, hi)) ! i < plot_x (plot_func_f64 a (lo, hi)) ! Suc i"
    using c1 c2 d p by linarith
  show "\<bar>plot_x (plot_func_f64 a (lo, hi)) ! Suc i - plot_x (plot_func_f64 a (lo, hi)) ! i
          - (real_of_int hi - real_of_int lo) / 199\<bar> \<le> 1 / 8192"
    using c1 c2 d by linarith
qed

subsection \<open>The net income of a company\<close>

text \<open>
  C1. For every gross income and every set of arguments, \<open>get_net_company\<close> is
  \<open>(gross - socSec - incomeTax - fixedExpensesCompany) * (1 - 0.05)\<close>, where \<open>socSec\<close> is
  the minimum base times the social security factor (whatever the gross income),
  \<open>incomeTax = 0.10 * (gross - fixedExpensesCompany - socSec)\<close> and
  \<open>fixedExpensesCompany = 165\<close>. The equation holds for every real \<open>gross\<close>, so no
  intermediate amount is clamped when it is negative.
\<close>

theorem get_net_company_formula:
  "get_net_company a gross =
     (let socSec = real_of_int (socsec_base_min a) * soc_sec_factor a;
          fixedExpensesCompany = 165;
          incomeTax = 0.10 * (gross - fixedExpensesCompany - socSec)
      in (gross - socSec - incomeTax - fixedExpensesCompany) * (1 - 0.05))"
  by (simp add: get_net_company_def constants_defs Let_def)

text \<open>A gross income of 100 leaves a negative tax base, a negative tax and a negative net.\<close>

lemma get_net_company_negative:
  "co_income_tax_base (get_net_company_locals args_2021 100) = - 193.7
   \<and> co_income_tax (get_net_company_locals args_2021 100) = - 19.37
   \<and> get_net_company args_2021 100 = - 165.6135"
  by (simp add: get_net_company_def get_net_company_locals_def soc_sec_factor_def
      constants_defs args_2021_def Let_def)

text \<open>
  C3 as the specification has it: with a minimum base of 650, a maximum base of 3000,
  no citizen flag and a gross income of 1000, the company path gives a social security
  of 128.7, a tax base of 706.3, an income tax of 70.63, a company net of 635.67 and a
  final net that is 603.99 when rounded to 2 decimals. The four intermediate amounts are
  right; the final net is \<open>635.67 * 0.95 = 603.8865\<close>, which lies outside the interval
  \<open>[603.985, 603.995]\<close> of the numbers that round to 603.99.
\<close>

theorem company_scenario_final_counterexample:
  "get_net_company args_2021 1000 = 603.8865
   \<and> \<not> (603.985 \<le> get_net_company args_2021 1000
          \<and> get_net_company args_2021 1000 \<le> 603.995)"
  by (simp add: get_net_company_def soc_sec_factor_def constants_defs args_2021_def Let_def)

text \<open>
  C3, amended: in the same scenario the company path gives a social security of 128.7,
  a tax base of 706.3, an income tax of 70.63, a company net of 635.67 and a final net
  of 603.8865, which is 603.89 when rounded to 2 decimals.
\<close>

theorem company_scenario_2021:
  "co_soc_sec (get_net_company_locals args_2021 1000) = 128.7
   \<and> co_income_tax_base (get_net_company_locals args_2021 1000) = 706.3
   \<and> co_income_tax (get_net_company_locals args_2021 1000) = 70.63
   \<and> co_net_company (get_net_company_locals args_2021 1000) = 635.67
   \<and> get_net_company args_2021 1000 = 603.8865
   \<and> 603.885 \<le> get_net_company args_2021 1000
   \<and> get_net_company args_2021 1000 < 603.895"
  by (simp add: get_net_company_def get_net_company_locals_def soc_sec_factor_def
      constants_defs args_2021_def Let_def)

text \<open>
  C8. For every gross income above zero and every set of arguments with a minimum base
  that is not negative, \<open>get_net_company\<close> is at most the gross income; equivalently
  the burden \<open>1 - net / gross\<close> of the company series is not negative (and is a finite
  number).
\<close>

theorem get_net_company_le_gross:
  assumes "0 < gross" and "0 \<le> socsec_base_min a"
  shows "get_net_company a gross \<le> gross
       \<and> 0 \<le> 1 - get_net_company a gross / gross
       \<and> np_subtract 1 (np_divide (get_net_company a gross) gross)
           = Finite (1 - get_net_company a gross / gross)"
proof -
  have "0 \<le> real_of_int (socsec_base_min a) * soc_sec_factor a"
    using assms(2) soc_sec_factor_nonneg [of a] by simp
  then have le: "get_net_company a gross \<le> gross"
    using assms(1) unfolding get_net_company_linear by simp
  then have "get_net_company a gross / gross \<le> 1"
    using assms(1) by (simp add: field_simps)
  then have "0 \<le> 1 - get_net_company a gross / gross"
    by simp
  moreover have "np_subtract 1 (np_divide (get_net_company a gross) gross)
                   = Finite (1 - get_net_company a gross / gross)"
    using assms(1) by (simp add: np_divide_def)
  ultimately show ?thesis using le by simp
qed

theorem get_net_company_le_gross_witness:
  "(0::real) < 1000 \<and> 0 \<le> socsec_base_min args_2021
   \<and> get_net_company args_2021 1000 \<le> 1000
   \<and> 0 \<le> 1 - get_net_company args_2021 1000 / 1000
   \<and> np_subtract 1 (np_divide (get_net_company args_2021 1000) 1000) = Finite 0.3961135"
proof -
  have h1: "(0::real) < 1000" by simp
  have h2: "0 \<le> socsec_base_min args_2021" by (simp add: args_2021_def)
  have v: "get_net_company args_2021 1000 = 603.8865"
    by (simp add: get_net_company_def soc_sec_factor_def constants_defs args_2021_def Let_def)
  show ?thesis using get_net_company_le_gross [OF h1 h2] h2
    by (simp add: v)
qed

subsection \<open>The net income of an individual\<close>

text \<open>
  C2. For every gross income and every set of arguments, \<open>get_net_individual\<close> is
  \<open>gross - socSec - incomeTax - fixedExpensesIndividual\<close>, where \<open>socSec\<close> is the smaller
  of the gross income and the maximum base times the social security factor,
  \<open>incomeTax = 0.10 * (gross * (1 - 0.25) - socSec)\<close> and \<open>fixedExpensesIndividual = 155\<close>.
\<close>

theorem get_net_individual_formula:
  "get_net_individual a gross =
     (let socSec = min gross (real_of_int (socsec_base_max a)) * soc_sec_factor a;
          fixedExpensesIndividual = 155;
          incomeTax = 0.10 * (gross * (1 - 0.25) - socSec)
      in gross - socSec - incomeTax - fixedExpensesIndividual)"
  by (simp add: get_net_individual_def constants_defs Let_def min_def)

text \<open>
  C6. The social security contribution inside \<open>get_net_individual\<close> is
  \<open>min gross socsec_base_max * soc_sec_factor\<close>; it does not decrease when the gross
  income grows (in particular up to the maximum base), and it is the constant
  \<open>socsec_base_max * soc_sec_factor\<close> from the maximum base on. The sign of the maximum
  base plays no role.
\<close>

theorem individual_soc_sec_monotone:
  "in_soc_sec (get_net_individual_locals a g)
     = min g (real_of_int (socsec_base_max a)) * soc_sec_factor a
   \<and> (g1 \<le> g2 \<longrightarrow>
        in_soc_sec (get_net_individual_locals a g1)
          \<le> in_soc_sec (get_net_individual_locals a g2))
   \<and> (real_of_int (socsec_base_max a) \<le> g \<longrightarrow>
        in_soc_sec (get_net_individual_locals a g)
          = real_of_int (socsec_base_max a) * soc_sec_factor a)"
proof -
  have eq: "in_soc_sec (get_net_individual_locals a x)
              = min x (real_of_int (socsec_base_max a)) * soc_sec_factor a" for x
    by (simp add: get_net_individual_locals_def Let_def min_def)
  have mono: "in_soc_sec (get_net_individual_locals a g1)
                \<le> in_soc_sec (get_net_individual_locals a g2)" if "g1 \<le> g2"
  proof -
    have "min g1 (real_of_int (socsec_base_max a)) \<le> min g2 (real_of_int (socsec_base_max a))"
      using that by (simp add: min_def)
    then show ?thesis
      unfolding eq using soc_sec_factor_nonneg [of a] by (rule mult_right_mono)
  qed
  have const: "in_soc_sec (get_net_individual_locals a g)
                 = real_of_int (socsec_base_max a) * soc_sec_factor a"
    if "real_of_int (socsec_base_max a) \<le> g"
    using that by (simp add: eq min_def)
  from eq [of g] mono const show ?thesis by blast
qed

theorem individual_soc_sec_monotone_witness:
  "(1000::real) \<le> 2000
   \<and> in_soc_sec (get_net_individual_locals args_2021 1000) = 198
   \<and> in_soc_sec (get_net_individual_locals args_2021 2000) = 396
   \<and> in_soc_sec (get_net_individual_locals args_2021 1000)
        \<le> in_soc_sec (get_net_individual_locals args_2021 2000)
   \<and> real_of_int (socsec_base_max args_2021) \<le> 5000
   \<and> in_soc_sec (get_net_individual_locals args_2021 5000) = 594"
proof -
  have f: "soc_sec_factor args_2021 = 0.198"
    by (simp add: soc_sec_factor_def constants_defs args_2021_def)
  have m: "socsec_base_max args_2021 = 3000"
    by (simp add: args_2021_def)
  have v1: "in_soc_sec (get_net_individual_locals args_2021 1000) = 198"
    and v2: "in_soc_sec (get_net_individual_locals args_2021 2000) = 396"
    by (simp_all add: get_net_individual_locals_def Let_def f m)
  show ?thesis
    using individual_soc_sec_monotone [of args_2021 5000 1000 2000]
    by (simp add: f m v1 v2)
qed

text \<open>
  C10 as the specification has it: \<open>get_net_individual\<close> is strictly increasing in the
  gross income, for every pair of gross values \<open>g1 < g2\<close>. The numbers that the code
  computes are not: \<open>1000 + 2 / 2 ^ 43\<close> and \<open>1000 + 3 / 2 ^ 43\<close> are two binary64 numbers (Python
  prints them as 1000.0000000000002 and 1000.0000000000003), and with a maximum base
  of 3000 and no citizen flag the code returns the same binary64 number for both
  (Python prints 591.8000000000002).
\<close>

theorem get_net_individual_f64_not_strict_counterexample:
  "round_binary64 (1000 + 2 / 2 ^ 43) = 1000 + 2 / 2 ^ 43
   \<and> round_binary64 (1000 + 3 / 2 ^ 43) = 1000 + 3 / 2 ^ 43
   \<and> (1000 + 2 / 2 ^ 43 :: real) < 1000 + 3 / 2 ^ 43
   \<and> get_net_individual_f64 args_2021 (1000 + 2 / 2 ^ 43) = 650690981317837 / 2 ^ 40
   \<and> get_net_individual_f64 args_2021 (1000 + 3 / 2 ^ 43) = 650690981317837 / 2 ^ 40
   \<and> \<not> get_net_individual_f64 args_2021 (1000 + 2 / 2 ^ 43)
         < get_net_individual_f64 args_2021 (1000 + 3 / 2 ^ 43)"
proof -
  have v1: "get_net_individual_f64 args_2021 (4398046511104001 / 4398046511104)
              = 650690981317837 / 1099511627776"
    by (simp add: get_net_individual_f64_def Let_def soc_sec_factor_f64_2021 f64_defs
        FIXED_EXPENSES_INDIVIDUAL_def socsec_base_max_2021 f64_of_int_exact
        rb_1 rb_0_25 rb_0_75 rb_0_10 rb_g1_soc_sec rb_g1_recognized rb_g1_tax_base
        rb_g1_tax rb_g1_net1 rb_g1_net2 rb_g1_net3)
  have v2: "get_net_individual_f64 args_2021 (8796093022208003 / 8796093022208)
              = 650690981317837 / 1099511627776"
    by (simp add: get_net_individual_f64_def Let_def soc_sec_factor_f64_2021 f64_defs
        FIXED_EXPENSES_INDIVIDUAL_def socsec_base_max_2021 f64_of_int_exact
        rb_1 rb_0_25 rb_0_75 rb_0_10 rb_g2_soc_sec rb_g2_recognized rb_g2_tax_base
        rb_g2_tax rb_g2_net1 rb_g2_net2 rb_g1_net3)
  show ?thesis
    by (simp add: v1 v2 rb_g1 rb_g2)
qed

text \<open>
  C10, amended: for every set of arguments with a maximum base that is not negative and
  either value of the citizen flag, and for gross values \<open>g1\<close>, \<open>g2\<close> from 0 to \<open>10 ^ 10\<close>
  with \<open>g2\<close> at least 0.001 above \<open>g1\<close>, the number that \<open>get_net_individual\<close> computes for
  \<open>g1\<close> is less than the number it computes for \<open>g2\<close>. On that range the computed number
  is within \<open>2 ^ - 14\<close> of the exact value of the formula, and the exact value is strictly
  increasing in the gross income for every pair \<open>g1 < g2\<close> and every set of arguments
  (slope at least \<open>0.925 - 0.9 * 0.278 = 0.6748\<close>). For gross values that are closer to
  each other the computed numbers can be equal.
\<close>

theorem get_net_individual_strict_mono:
  assumes "g1 < g2"
  shows "(0 \<le> socsec_base_max a \<longrightarrow> 0 \<le> g1 \<longrightarrow> g1 + 1 / 1000 \<le> g2 \<longrightarrow> g2 \<le> 10 ^ 10 \<longrightarrow>
            get_net_individual_f64 a g1 < get_net_individual_f64 a g2)
       \<and> (0 \<le> socsec_base_max a \<longrightarrow> 0 \<le> g1 \<longrightarrow> g1 \<le> 10 ^ 10 \<longrightarrow>
            \<bar>get_net_individual_f64 a g1 - get_net_individual a g1\<bar> \<le> 1 / 2 ^ 14)
       \<and> get_net_individual a g1 < get_net_individual a g2"
proof -
  have f64: "get_net_individual_f64 a g1 < get_net_individual_f64 a g2"
    if "0 \<le> socsec_base_max a" "0 \<le> g1" "g1 + 1 / 1000 \<le> g2" "g2 \<le> 10 ^ 10"
    using that by (intro get_net_individual_f64_separated) simp_all
  have err: "\<bar>get_net_individual_f64 a g1 - get_net_individual a g1\<bar> \<le> 1 / 2 ^ 14"
    if "0 \<le> socsec_base_max a" "0 \<le> g1" "g1 \<le> 10 ^ 10"
    using get_net_individual_f64_error [of a g1] that by simp
  have "6748 * (g2 - g1) \<le> 10000 * (get_net_individual a g2 - get_net_individual a g1)"
    using assms by (intro get_net_individual_slope) simp
  with assms have exact: "get_net_individual a g1 < get_net_individual a g2"
    by argo
  from f64 err exact show ?thesis by blast
qed

theorem get_net_individual_strict_mono_witness:
  "(2000::real) < 4000
   \<and> 0 \<le> socsec_base_max args_2021 \<and> (0::real) \<le> 2000 \<and> (2000::real) + 1 / 1000 \<le> 4000
   \<and> (4000::real) \<le> 10 ^ 10
   \<and> get_net_individual_f64 args_2021 2000 < get_net_individual_f64 args_2021 4000
   \<and> \<bar>get_net_individual_f64 args_2021 2000 - 1338.6\<bar> \<le> 1 / 2 ^ 14
   \<and> get_net_individual args_2021 2000 = 1338.6
   \<and> get_net_individual args_2021 4000 = 3010.4
   \<and> get_net_individual args_2021 2000 < get_net_individual args_2021 4000"
proof -
  have h: "(2000::real) < 4000" by simp
  have v1: "get_net_individual args_2021 2000 = 1338.6"
    and v2: "get_net_individual args_2021 4000 = 3010.4"
    by (simp_all add: get_net_individual_def soc_sec_factor_def constants_defs
        args_2021_def Let_def)
  show ?thesis using get_net_individual_strict_mono [OF h, of args_2021]
    by (simp add: v1 v2 socsec_base_max_2021)
qed

subsection \<open>The two structures do not read each other's base\<close>

text \<open>
  C9. Two sets of arguments that differ only in the maximum social security base give
  the same \<open>get_net_company\<close> for every gross income, and two that differ only in the
  minimum base give the same \<open>get_net_individual\<close>.
\<close>

theorem net_income_noninterference:
  "get_net_company (a\<lparr>socsec_base_max := m\<rparr>) gross = get_net_company a gross
   \<and> get_net_individual (a\<lparr>socsec_base_min := m'\<rparr>) gross = get_net_individual a gross"
  by (simp add: get_net_company_def get_net_individual_def soc_sec_factor_def)

subsection \<open>The social security factor\<close>

text \<open>
  C7. The social security factor with the citizen flag set is the factor without the
  flag plus exactly 0.08, the health insurance rate; without the flag the factor is
  exactly 0.148 + 0.05.
\<close>

theorem soc_sec_factor_citizen:
  "soc_sec_factor (a\<lparr>citizen := True\<rparr>) = soc_sec_factor (a\<lparr>citizen := False\<rparr>) + 0.08
   \<and> soc_sec_factor (a\<lparr>citizen := False\<rparr>) = 0.148 + 0.05
   \<and> SOCIAL_SECURITY_FACTOR_HEALTH = 0.08"
  by (simp add: soc_sec_factor_def constants_defs)

subsection \<open>The series\<close>

text \<open>The samples in exact arithmetic: evenly spaced from \<open>lo\<close> to \<open>hi\<close>.\<close>

lemma plot_func_exact_samples:
  assumes "lo < hi"
  shows "length (plot_x (plot_func a (lo, hi))) = 200
       \<and> length (y_company (plot_func a (lo, hi))) = 200
       \<and> length (y_individual (plot_func a (lo, hi))) = 200
       \<and> plot_x (plot_func a (lo, hi)) ! 0 = real_of_int lo
       \<and> plot_x (plot_func a (lo, hi)) ! 199 = real_of_int hi
       \<and> (\<forall>i<199. plot_x (plot_func a (lo, hi)) ! Suc i - plot_x (plot_func a (lo, hi)) ! i
                     = (real_of_int hi - real_of_int lo) / 199)
       \<and> (\<forall>i<199. plot_x (plot_func a (lo, hi)) ! i < plot_x (plot_func a (lo, hi)) ! Suc i)"
proof -
  have len: "length (plot_x (plot_func a (lo, hi))) = 200"
            "length (y_company (plot_func a (lo, hi))) = 200"
            "length (y_individual (plot_func a (lo, hi))) = 200"
    by (simp_all add: plot_func_def Let_def length_np_linspace)
  have first: "plot_x (plot_func a (lo, hi)) ! 0 = real_of_int lo"
    by (simp add: plot_x_nth)
  have last: "plot_x (plot_func a (lo, hi)) ! 199 = real_of_int hi"
    by (simp add: plot_x_nth field_simps)
  have step: "plot_x (plot_func a (lo, hi)) ! Suc i - plot_x (plot_func a (lo, hi)) ! i
                = (real_of_int hi - real_of_int lo) / 199" if "i < 199" for i
    using that by (simp add: plot_x_nth field_simps)
  have pos: "0 < (real_of_int hi - real_of_int lo) / 199"
    using assms by simp
  have incr: "plot_x (plot_func a (lo, hi)) ! i < plot_x (plot_func a (lo, hi)) ! Suc i"
    if "i < 199" for i
    using step [OF that] pos by linarith
  from len first last step incr show ?thesis by blast
qed

text \<open>
  C4 as the specification has it: for every range with \<open>grossMin < grossMax\<close> the 200
  samples are evenly spaced, the first is \<open>grossMin\<close>, the last is \<open>grossMax\<close> and they are
  strictly increasing. The samples that the code computes are not: in the range from
  \<open>10 ^ 15\<close> to \<open>10 ^ 15 + 20\<close> (both bounds are binary64 numbers) the samples 2 and 3 are the
  same number, \<open>10 ^ 15 + 1 / 4\<close>; and in the range from \<open>2 ^ 53\<close> to \<open>2 ^ 53 + 1\<close> the last sample
  is \<open>2 ^ 53\<close>, the binary64 number nearest to the upper bound.
\<close>

theorem plot_func_f64_samples_counterexample:
  "(1000000000000000 :: int) < 1000000000000020
   \<and> plot_x (plot_func_f64 args_2021 (1000000000000000, 1000000000000020)) ! 2
       = 1000000000000000 + 1 / 4
   \<and> plot_x (plot_func_f64 args_2021 (1000000000000000, 1000000000000020)) ! 3
       = 1000000000000000 + 1 / 4
   \<and> \<not> plot_x (plot_func_f64 args_2021 (1000000000000000, 1000000000000020)) ! 2
         < plot_x (plot_func_f64 args_2021 (1000000000000000, 1000000000000020)) ! 3
   \<and> (2 ^ 53 :: int) < 2 ^ 53 + 1
   \<and> plot_x (plot_func_f64 args_2021 (2 ^ 53, 2 ^ 53 + 1)) ! 199 = 2 ^ 53
   \<and> plot_x (plot_func_f64 args_2021 (2 ^ 53, 2 ^ 53 + 1)) ! 199 \<noteq> real_of_int (2 ^ 53 + 1)"
proof -
  have step: "f64_div (f64_sub 1000000000000020 1000000000000000) 199
                = 7241969250043009 / 72057594037927936"
    by (simp add: f64_div_def f64_sub_def rb_delta rb_step)
  have x2: "plot_x (plot_func_f64 args_2021 (1000000000000000, 1000000000000020)) ! 2
              = 4000000000000001 / 4"
    by (simp add: plot_x_f64_nth f64_of_int_exact step f64_add_def f64_mul_def rb_y2 rb_x2)
  have x3: "plot_x (plot_func_f64 args_2021 (1000000000000000, 1000000000000020)) ! 3
              = 4000000000000001 / 4"
    by (simp add: plot_x_f64_nth f64_of_int_exact step f64_add_def f64_mul_def rb_y3 rb_x3)
  have last: "plot_x (plot_func_f64 args_2021 (9007199254740992, 9007199254740993)) ! 199
                = 9007199254740992"
    by (simp add: plot_func_f64_shape f64_of_int_def rb_2p53_1)
  show ?thesis
    by (simp add: x2 x3 last)
qed

text \<open>
  C4, amended: for every range with \<open>grossMin < grossMax\<close>, \<open>plot_func\<close> produces exactly
  200 sample points for each series; the first sample is \<open>grossMin\<close> and the last is
  \<open>grossMax\<close>, each converted to binary64 (which changes nothing for a bound of magnitude
  up to \<open>2 ^ 53\<close>). When both bounds have a magnitude of at most \<open>10 ^ 10\<close>, the samples are
  strictly increasing and evenly spaced up to rounding: samples that follow each other
  differ by \<open>(grossMax - grossMin) / 199\<close> up to \<open>2 ^ - 13\<close>. The exact values of the sample
  formula, that is the samples before the binary64 roundings, are evenly spaced, run
  from \<open>grossMin\<close> to \<open>grossMax\<close> and are strictly increasing, for every range. For larger
  bounds rounded samples that follow each other can be equal.
\<close>

theorem plot_func_samples:
  assumes "lo < hi"
  shows "length (plot_x (plot_func_f64 a (lo, hi))) = 200
       \<and> length (y_company (plot_func_f64 a (lo, hi))) = 200
       \<and> length (y_individual (plot_func_f64 a (lo, hi))) = 200
       \<and> plot_x (plot_func_f64 a (lo, hi)) ! 0 = f64_of_int lo
       \<and> plot_x (plot_func_f64 a (lo, hi)) ! 199 = f64_of_int hi
       \<and> (\<bar>lo\<bar> \<le> 2 ^ 53 \<longrightarrow> plot_x (plot_func_f64 a (lo, hi)) ! 0 = real_of_int lo)
       \<and> (\<bar>hi\<bar> \<le> 2 ^ 53 \<longrightarrow> plot_x (plot_func_f64 a (lo, hi)) ! 199 = real_of_int hi)
       \<and> (\<bar>lo\<bar> \<le> 10 ^ 10 \<longrightarrow> \<bar>hi\<bar> \<le> 10 ^ 10 \<longrightarrow>
            (\<forall>i<199. plot_x (plot_func_f64 a (lo, hi)) ! i
                       < plot_x (plot_func_f64 a (lo, hi)) ! Suc i))
       \<and> (\<bar>lo\<bar> \<le> 10 ^ 10 \<longrightarrow> \<bar>hi\<bar> \<le> 10 ^ 10 \<longrightarrow>
            (\<forall>i<199. \<bar>plot_x (plot_func_f64 a (lo, hi)) ! Suc i
                        - plot_x (plot_func_f64 a (lo, hi)) ! i
                        - (real_of_int hi - real_of_int lo) / 199\<bar> \<le> 1 / 2 ^ 13))
       \<and> length (plot_x (plot_func a (lo, hi))) = 200
       \<and> plot_x (plot_func a (lo, hi)) ! 0 = real_of_int lo
       \<and> plot_x (plot_func a (lo, hi)) ! 199 = real_of_int hi
       \<and> (\<forall>i<199. plot_x (plot_func a (lo, hi)) ! Suc i - plot_x (plot_func a (lo, hi)) ! i
                     = (real_of_int hi - real_of_int lo) / 199)
       \<and> (\<forall>i<199. plot_x (plot_func a (lo, hi)) ! i < plot_x (plot_func a (lo, hi)) ! Suc i)"
proof -
  note e = plot_func_exact_samples [OF assms, of a]
  have lo: "plot_x (plot_func_f64 a (lo, hi)) ! 0 = real_of_int lo" if "\<bar>lo\<bar> \<le> 2 ^ 53"
    using that by (simp add: plot_func_f64_shape f64_of_int_exact)
  have hi: "plot_x (plot_func_f64 a (lo, hi)) ! 199 = real_of_int hi" if "\<bar>hi\<bar> \<le> 2 ^ 53"
    using that by (simp add: plot_func_f64_shape f64_of_int_exact)
  have incr: "plot_x (plot_func_f64 a (lo, hi)) ! i < plot_x (plot_func_f64 a (lo, hi)) ! Suc i"
    if "\<bar>lo\<bar> \<le> 10 ^ 10" "\<bar>hi\<bar> \<le> 10 ^ 10" "i < 199" for i
    using assms that by (intro plot_x_f64_increasing(1)) simp_all
  have even: "\<bar>plot_x (plot_func_f64 a (lo, hi)) ! Suc i - plot_x (plot_func_f64 a (lo, hi)) ! i
                - (real_of_int hi - real_of_int lo) / 199\<bar> \<le> 1 / 2 ^ 13"
    if "\<bar>lo\<bar> \<le> 10 ^ 10" "\<bar>hi\<bar> \<le> 10 ^ 10" "i < 199" for i
    using plot_x_f64_increasing(2) [of lo hi i a] assms that by simp
  from e lo hi incr even plot_func_f64_shape [of a lo hi] show ?thesis
    by blast
qed

theorem plot_func_samples_witness:
  "(500::int) < 25000
   \<and> length (plot_x (plot_func_f64 args_2021 (500, 25000))) = 200
   \<and> length (y_company (plot_func_f64 args_2021 (500, 25000))) = 200
   \<and> length (y_individual (plot_func_f64 args_2021 (500, 25000))) = 200
   \<and> \<bar>500 :: int\<bar> \<le> 2 ^ 53
   \<and> plot_x (plot_func_f64 args_2021 (500, 25000)) ! 0 = 500
   \<and> \<bar>25000 :: int\<bar> \<le> 2 ^ 53
   \<and> plot_x (plot_func_f64 args_2021 (500, 25000)) ! 199 = 25000
   \<and> \<bar>500 :: int\<bar> \<le> 10 ^ 10 \<and> \<bar>25000 :: int\<bar> \<le> 10 ^ 10
   \<and> plot_x (plot_func_f64 args_2021 (500, 25000)) ! 198
       < plot_x (plot_func_f64 args_2021 (500, 25000)) ! Suc 198
   \<and> \<bar>plot_x (plot_func_f64 args_2021 (500, 25000)) ! Suc 198
        - plot_x (plot_func_f64 args_2021 (500, 25000)) ! 198 - 24500 / 199\<bar> \<le> 1 / 2 ^ 13
   \<and> plot_x (plot_func args_2021 (500, 25000)) ! 0 = 500
   \<and> plot_x (plot_func args_2021 (500, 25000)) ! 199 = 25000
   \<and> plot_x (plot_func args_2021 (500, 25000)) ! Suc 198
       - plot_x (plot_func args_2021 (500, 25000)) ! 198 = 24500 / 199
   \<and> plot_x (plot_func args_2021 (500, 25000)) ! 198
       < plot_x (plot_func args_2021 (500, 25000)) ! Suc 198"
proof -
  have h: "(500::int) < 25000" by simp
  have i: "(198::nat) < 199" by simp
  have b1: "\<bar>500 :: int\<bar> \<le> 2 ^ 53" and b2: "\<bar>25000 :: int\<bar> \<le> 2 ^ 53"
    and b3: "\<bar>500 :: int\<bar> \<le> 10 ^ 10" and b4: "\<bar>25000 :: int\<bar> \<le> 10 ^ 10"
    by simp_all
  note t = plot_func_samples [OF h, of args_2021]
  note c2 = conjunct2
  note t5 = t [THEN c2, THEN c2, THEN c2, THEN c2, THEN c2]
  note first = t5 [THEN conjunct1, rule_format, OF b1]
  note last = t5 [THEN c2, THEN conjunct1, rule_format, OF b2]
  note incr64 = t5 [THEN c2, THEN c2, THEN conjunct1, rule_format, OF b3 b4 i]
  note even64 = t5 [THEN c2, THEN c2, THEN c2, THEN conjunct1, rule_format, OF b3 b4 i]
  note t12 = t5 [THEN c2, THEN c2, THEN c2, THEN c2, THEN c2, THEN c2, THEN c2]
  note step = t12 [THEN conjunct1, rule_format, OF i]
  note incr = t12 [THEN c2, rule_format, OF i]
  show ?thesis using t first last incr64 even64 step incr by simp
qed

text \<open>
  C5. For every sampled gross income, the value stored in the company series is
  \<open>1 - get_net_company gross / gross\<close> and the value stored in the individual series is
  \<open>1 - get_net_individual gross / gross\<close>: the burden, as the float operations compute
  it, which is the number \<open>1 - net / gross\<close> whenever the sample is not zero.
\<close>

theorem plot_func_burden:
  assumes "i < 200"
  shows "(let gross = plot_x (plot_func a x) ! i in
           y_company (plot_func a x) ! i
             = np_subtract 1 (np_divide (get_net_company a gross) gross)
         \<and> y_individual (plot_func a x) ! i
             = np_subtract 1 (np_divide (get_net_individual a gross) gross)
         \<and> (gross \<noteq> 0 \<longrightarrow>
               y_company (plot_func a x) ! i = Finite (1 - get_net_company a gross / gross)
             \<and> y_individual (plot_func a x) ! i
                 = Finite (1 - get_net_individual a gross / gross)))"
  using assms by (simp add: y_company_nth y_individual_nth Let_def np_divide_def)

theorem plot_func_burden_witness:
  "(0::nat) < 200
   \<and> plot_x (plot_func args_2021 (500, 25000)) ! 0 = 500
   \<and> y_company (plot_func args_2021 (500, 25000)) ! 0 = Finite 0.647227
   \<and> y_individual (plot_func args_2021 (500, 25000)) ! 0 = Finite 0.5632"
proof -
  have h: "(0::nat) < 200" by simp
  have x0: "plot_x (plot_func args_2021 (500, 25000)) ! 0 = 500"
    by (simp add: plot_x_nth)
  have c: "get_net_company args_2021 500 = 176.3865"
    by (simp add: get_net_company_def soc_sec_factor_def constants_defs args_2021_def Let_def)
  have n: "get_net_individual args_2021 500 = 218.4"
    by (simp add: get_net_individual_def soc_sec_factor_def constants_defs args_2021_def Let_def)
  show ?thesis using plot_func_burden [OF h, of args_2021 "(500, 25000)"]
    by (simp add: Let_def x0 c n np_divide_def)
qed

text \<open>The run with the default range charts \<open>plot_func\<close> on 500 to 25000.\<close>

lemma main_plot_2021: "main_plot args_2021 = plot_func args_2021 (500, 25000)"
  by (simp add: main_plot_def args_2021_def)

text \<open>A range that starts at zero stores an infinity in both series, with no error.\<close>

lemma plot_func_zero_sample:
  "plot_x (plot_func args_2021 (0, 199)) ! 0 = 0
   \<and> y_company (plot_func args_2021 (0, 199)) ! 0 = PosInf
   \<and> y_individual (plot_func args_2021 (0, 199)) ! 0 = PosInf"
proof -
  have x0: "plot_x (plot_func args_2021 (0, 199)) ! 0 = 0"
    by (simp add: plot_x_nth)
  have c: "get_net_company args_2021 0 < 0"
    by (simp add: get_net_company_def soc_sec_factor_def constants_defs args_2021_def Let_def)
  have n: "get_net_individual args_2021 0 < 0"
    by (simp add: get_net_individual_def soc_sec_factor_def constants_defs args_2021_def Let_def)
  show ?thesis using c n
    by (simp add: y_company_nth y_individual_nth x0 np_divide_def)
qed

end
